theory Spec2Isabelle
  imports Complex_Main "HOL-Library.Word"
begin

unbundle bit_operations_syntax

section \<open>Numbers and the random source\<close>

text \<open>
  A JavaScript \<open>number\<close> is modelled as a real: the arithmetic of the generators is
  read exactly, without IEEE-754 rounding, and \<open>NaN\<close> and the infinities are outside
  the model. A number is truthy when it is not zero.

  \<open>Math.random()\<close> reads the host's sequence of draws through a cursor; every draw
  lies in \<open>[0,1)\<close> (\<open>unit_draws\<close>).
\<close>

record random_source =
  draws :: "nat \<Rightarrow> real"
  cursor :: nat

definition Math_random :: "random_source \<Rightarrow> real \<times> random_source" where
  "Math_random g = (draws g (cursor g), g\<lparr>cursor := Suc (cursor g)\<rparr>)"


definition truthy :: "real \<Rightarrow> bool" where
  "truthy x = (x \<noteq> 0)"

section \<open>Randomised parameters\<close>

text \<open>\<open>interface RandParam { value: number; rand: boolean; dist: number }\<close>\<close>

record RandParam =
  value_r :: real
  rand_r :: bool
  dist_r :: real

text \<open>
  V1 \<open>ThunderGenerator\<close> evaluates every randomised parameter inline, by the same
  expression with its own fallback constant:
  \<^verbatim>\<open>p?.value ? (p.rand ? p.value + (Math.random() * p.dist) : p.value) : fallback\<close>
  The parameter may be undefined (\<open>?.\<close>), hence the option.
\<close>

definition evalRandV1 :: "RandParam option \<Rightarrow> real \<Rightarrow> random_source \<Rightarrow> real \<times> random_source" where
  "evalRandV1 p fallback g =
     (case p of
        None \<Rightarrow> (fallback, g)
      | Some q \<Rightarrow>
          if truthy (value_r q) then
            (if rand_r q then (value_r q + fst (Math_random g) * dist_r q, snd (Math_random g))
             else (value_r q, g))
          else (fallback, g))"

text \<open>V2 \<open>ThunderGenerator.randomBetween\<close> and \<open>ThunderGenerator.rand\<close>.\<close>

definition randomBetween :: "real \<Rightarrow> real \<Rightarrow> random_source \<Rightarrow> real \<times> random_source" where
  "randomBetween lo hi g = (lo + fst (Math_random g) * (hi - lo), snd (Math_random g))"

definition rand :: "RandParam \<Rightarrow> random_source \<Rightarrow> real \<times> random_source" where
  "rand param g =
     (if rand_r param then randomBetween (value_r param - dist_r param) (value_r param + dist_r param) g
      else (value_r param, g))"

section \<open>V1 thunder: one strike\<close>

record ThunderParams =
  volume :: "RandParam option"
  duration :: "RandParam option"
  filterFreq :: "RandParam option"
  burstCount :: "RandParam option"
  delayMs :: "real option"
  reverbDuration :: "RandParam option"
  reverbDecay :: "RandParam option"
  reverbWetLevel :: "RandParam option"
  subLevel :: "RandParam option"
  panRange :: "RandParam option"
  highPassFreq :: "RandParam option"
  crackleAmount :: "RandParam option"
  eqGains :: "real list"
  rumbleFreqStart :: "RandParam option"
  rumbleFreqEnd :: "RandParam option"
  rumbleVolume :: "RandParam option"
  rumbleDecay :: "RandParam option"

definition fixed :: "real \<Rightarrow> real \<Rightarrow> RandParam option" where
  "fixed v d = Some \<lparr>value_r = v, rand_r = False, dist_r = d\<rparr>"

definition defaultThunderParams :: ThunderParams where
  "defaultThunderParams =
     \<lparr>volume = fixed (1/2) (1/5), duration = fixed 2 (1/5), filterFreq = fixed 750 500,
      burstCount = fixed 3 1, delayMs = Some 0, reverbDuration = fixed 2 (1/2),
      reverbDecay = fixed 2 (1/2), reverbWetLevel = fixed (2/5) (1/5),
      subLevel = fixed (1/10) (1/10), panRange = fixed 1 (1/2), highPassFreq = fixed 20 5,
      crackleAmount = fixed 1 (1/2), eqGains = replicate 10 0,
      rumbleFreqStart = fixed 30 5, rumbleFreqEnd = fixed 20 5,
      rumbleVolume = fixed (1/20) (1/10), rumbleDecay = fixed 8 2\<rparr>"

text \<open>
  The rumble voice of a strike: a sine oscillator ramped from \<open>rumble_from\<close> to
  \<open>rumble_to\<close> and a gain decaying from \<open>rumble_gain\<close>, both over \<open>rumble_span\<close>
  seconds. A burst is armed by \<open>setTimeout\<close>; the armed callback is kept with its
  timeout in milliseconds and the strike's \<open>duration\<close> and \<open>volume\<close> it closes over.
  Nothing in the generator cancels an armed burst, so each one plays
  \<open>_playSingleBurst\<close> once. \<open>strike_burstCount\<close> is the local \<open>burstCount\<close>
  of \<open>triggerThunder\<close>, the evaluated parameter that bounds the loop.
\<close>

record RumbleVoice =
  rumble_from :: real
  rumble_to :: real
  rumble_gain :: real
  rumble_span :: real

record BurstTimer =
  timeout_ms :: real
  base_duration :: real
  base_volume :: real

record Strike =
  strike_timeout_ms :: real
  strike_burstCount :: real
  rumbles :: "RumbleVoice list"
  bursts :: "BurstTimer list"

text \<open>
  \<^verbatim>\<open>for (let i = 0; i < burstCount; i++) {
      const burstDelay = 200 + Math.random() * 400;
      setTimeout(() => this._playSingleBurst(...), burstDelay * i); }\<close>
  The bound is a number, not an integer: the loop runs while \<open>i < burstCount\<close>.
\<close>

function burstLoopV1 ::
  "real \<Rightarrow> real \<Rightarrow> real \<Rightarrow> nat \<Rightarrow> random_source \<Rightarrow> BurstTimer list
     \<Rightarrow> BurstTimer list \<times> random_source" where
  "burstLoopV1 n d v i g acc =
     (if real i < n then
        burstLoopV1 n d v (Suc i) (snd (Math_random g))
          (acc @ [\<lparr>timeout_ms = (200 + fst (Math_random g) * 400) * real i,
                    base_duration = d, base_volume = v\<rparr>])
      else (acc, g))"
  by pat_completeness auto
termination
proof (relation "measure (\<lambda>(n, d, v, i, g, acc). nat \<lceil>n\<rceil> - i)")
  show "wf (measure (\<lambda>(n, d, v, i, g, acc). nat \<lceil>n\<rceil> - i))"
    by simp
next
  fix n d v :: real and i :: nat and g :: random_source and acc :: "BurstTimer list"
  assume "real i < n"
  then have "int i < \<lceil>n\<rceil>"
    by linarith
  then show "((n, d, v, Suc i, snd (Math_random g),
               acc @ [\<lparr>timeout_ms = (200 + fst (Math_random g) * 400) * real i,
                        base_duration = d, base_volume = v\<rparr>]),
              (n, d, v, i, g, acc)) \<in> measure (\<lambda>(n, d, v, i, g, acc). nat \<lceil>n\<rceil> - i)"
    by simp
qed

declare burstLoopV1.simps [simp del]

text \<open>\<open>triggerThunder()\<close> of V1: the seven inline evaluations, then the armed callback.\<close>

definition triggerThunder :: "ThunderParams \<Rightarrow> random_source \<Rightarrow> Strike \<times> random_source" where
  "triggerThunder p g0 =
     (let delay = (case delayMs p of None \<Rightarrow> 0 | Some d \<Rightarrow> d);
          r1 = evalRandV1 (rumbleFreqStart p) 30 g0;
          r2 = evalRandV1 (rumbleFreqEnd p) 20 (snd r1);
          r3 = evalRandV1 (rumbleVolume p) (1/5) (snd r2);
          r4 = evalRandV1 (rumbleDecay p) 8 (snd r3);
          r5 = evalRandV1 (burstCount p) 1 (snd r4);
          r6 = evalRandV1 (duration p) 2 (snd r5);
          r7 = evalRandV1 (volume p) (1/2) (snd r6);
          lp = burstLoopV1 (fst r5) (fst r6) (fst r7) 0 (snd r7) []
      in (\<lparr>strike_timeout_ms = delay, strike_burstCount = fst r5,
            rumbles = [\<lparr>rumble_from = fst r1, rumble_to = fst r2,
                         rumble_gain = fst r3, rumble_span = fst r4\<rparr>],
            bursts = fst lp\<rparr>, snd lp))"

section \<open>V2 thunder: one strike\<close>













text \<open>A random source for concrete runs: every draw is 0.\<close>

definition zero_source :: random_source where
  "zero_source = \<lparr>draws = (\<lambda>n. 0), cursor = 0\<rparr>"

section \<open>Noise buffers\<close>

text \<open>
  The pink branch of V1 \<open>RainGenerator._startNoise\<close> and of V2
  \<open>RainGenerator.createNoiseBuffer\<close>: seven running variables \<open>b0 .. b6\<close>, all 0 at the
  start, and one loop over the buffer, written by index. V1 stores the sum in
  \<open>output[i]\<close> and then scales the stored element by 0.11; V2 keeps the sum in a local,
  updates \<open>b6\<close> and stores the scaled value. A \<open>Float32Array\<close> element is read as the
  real that was stored.
\<close>

record PinkState =
  b0 :: real
  b1 :: real
  b2 :: real
  b3 :: real
  b4 :: real
  b5 :: real
  b6 :: real

definition pinkInit :: PinkState where
  "pinkInit = \<lparr>b0 = 0, b1 = 0, b2 = 0, b3 = 0, b4 = 0, b5 = 0, b6 = 0\<rparr>"

function pinkLoopV1 ::
  "nat \<Rightarrow> nat \<Rightarrow> PinkState \<Rightarrow> real list \<Rightarrow> random_source \<Rightarrow> real list \<times> random_source" where
  "pinkLoopV1 bufferSize i st output g =
     (if i < bufferSize then
        (let white = fst (Math_random g) * 2 - 1;
             st1 = st\<lparr>b0 := 0.99886 * b0 st + white * 0.0555179\<rparr>;
             st2 = st1\<lparr>b1 := 0.99332 * b1 st1 + white * 0.0750759\<rparr>;
             st3 = st2\<lparr>b2 := 0.969 * b2 st2 + white * 0.153852\<rparr>;
             st4 = st3\<lparr>b3 := 0.8665 * b3 st3 + white * 0.3104856\<rparr>;
             st5 = st4\<lparr>b4 := 0.55 * b4 st4 + white * 0.5329522\<rparr>;
             st6 = st5\<lparr>b5 := - 0.7616 * b5 st5 - white * 0.016898\<rparr>;
             output1 = output[i := b0 st6 + b1 st6 + b2 st6 + b3 st6 + b4 st6 + b5 st6 + b6 st6
                                     + white * 0.5362];
             output2 = output1[i := output1 ! i * 0.11];
             st7 = st6\<lparr>b6 := white * 0.115926\<rparr>
         in pinkLoopV1 bufferSize (Suc i) st7 output2 (snd (Math_random g)))
      else (output, g))"
  by pat_completeness auto
termination
  by (relation "measure (\<lambda>(bufferSize, i, st, output, g). bufferSize - i)") auto

declare pinkLoopV1.simps [simp del]

function pinkLoopV2 ::
  "nat \<Rightarrow> nat \<Rightarrow> PinkState \<Rightarrow> real list \<Rightarrow> random_source \<Rightarrow> real list \<times> random_source" where
  "pinkLoopV2 len i st data g =
     (if i < len then
        (let white = fst (Math_random g) * 2 - 1;
             st1 = st\<lparr>b0 := 0.99886 * b0 st + white * 0.0555179\<rparr>;
             st2 = st1\<lparr>b1 := 0.99332 * b1 st1 + white * 0.0750759\<rparr>;
             st3 = st2\<lparr>b2 := 0.96900 * b2 st2 + white * 0.1538520\<rparr>;
             st4 = st3\<lparr>b3 := 0.86650 * b3 st3 + white * 0.3104856\<rparr>;
             st5 = st4\<lparr>b4 := 0.55000 * b4 st4 + white * 0.5329522\<rparr>;
             st6 = st5\<lparr>b5 := - 0.7616 * b5 st5 - white * 0.0168980\<rparr>;
             pnk = b0 st6 + b1 st6 + b2 st6 + b3 st6 + b4 st6 + b5 st6 + b6 st6 + white * 0.5362;
             st7 = st6\<lparr>b6 := white * 0.115926\<rparr>
         in pinkLoopV2 len (Suc i) st7 (data[i := pnk * 0.11]) (snd (Math_random g)))
      else (data, g))"
  by pat_completeness auto
termination
  by (relation "measure (\<lambda>(len, i, st, data, g). len - i)") auto

declare pinkLoopV2.simps [simp del]

text \<open>
  The recurrence as the specification words it, sample by sample: the next state and
  the output for a white sample \<open>w\<close>, and the run over a list of white samples.
  \<open>whites g n\<close> are the white samples \<open>Math.random() * 2 - 1\<close> of the next \<open>n\<close> draws.
\<close>

definition kellet_next :: "PinkState \<Rightarrow> real \<Rightarrow> PinkState" where
  "kellet_next s w =
     \<lparr>b0 = 0.99886 * b0 s + w * 0.0555179,
      b1 = 0.99332 * b1 s + w * 0.0750759,
      b2 = 0.969 * b2 s + w * 0.153852,
      b3 = 0.8665 * b3 s + w * 0.3104856,
      b4 = 0.55 * b4 s + w * 0.5329522,
      b5 = - 0.7616 * b5 s - w * 0.016898,
      b6 = w * 0.115926\<rparr>"

definition kellet_output :: "PinkState \<Rightarrow> real \<Rightarrow> real" where
  "kellet_output s w =
     (b0 (kellet_next s w) + b1 (kellet_next s w) + b2 (kellet_next s w) + b3 (kellet_next s w)
        + b4 (kellet_next s w) + b5 (kellet_next s w) + b6 s + w * 0.5362) * 0.11"

primrec kellet :: "PinkState \<Rightarrow> real list \<Rightarrow> real list" where
  "kellet s [] = []"
| "kellet s (w # ws) = kellet_output s w # kellet (kellet_next s w) ws"

definition whites :: "random_source \<Rightarrow> nat \<Rightarrow> real list" where
  "whites g n = map (\<lambda>j. draws g (cursor g + j) * 2 - 1) [0..<n]"


text \<open>
  The white branch, \<open>output[i] = Math.random() * 2 - 1\<close>, and the envelope loop of a V1
  raindrop, \<open>data[i] = (Math.random() * 2 - 1) * Math.pow(1 - i / data.length, 2.5)\<close>. The
  base of the power lies in \<open>(0, 1]\<close> inside the loop, where \<open>Math.pow\<close> is \<open>powr\<close>.
\<close>

function whiteLoop ::
  "nat \<Rightarrow> nat \<Rightarrow> real list \<Rightarrow> random_source \<Rightarrow> real list \<times> random_source" where
  "whiteLoop bufferSize i output g =
     (if i < bufferSize then
        whiteLoop bufferSize (Suc i) (output[i := fst (Math_random g) * 2 - 1]) (snd (Math_random g))
      else (output, g))"
  by pat_completeness auto
termination
  by (relation "measure (\<lambda>(bufferSize, i, output, g). bufferSize - i)") auto

declare whiteLoop.simps [simp del]

function fadeLoop ::
  "real \<Rightarrow> nat \<Rightarrow> real list \<Rightarrow> random_source \<Rightarrow> real list \<times> random_source" where
  "fadeLoop e i data g =
     (if i < length data then
        fadeLoop e (Suc i)
          (data[i := (fst (Math_random g) * 2 - 1) * (1 - real i / real (length data)) powr e])
          (snd (Math_random g))
      else (data, g))"
  by pat_completeness auto
termination
  by (relation "measure (\<lambda>(e, i, data, g). length data - i)") auto

declare fadeLoop.simps [simp del]

section \<open>V1 rain generator\<close>

text \<open>
  V1 \<open>RainGenerator\<close> with the parameter types it shares with V2: \<open>NoiseType\<close>,
  \<open>interface OscParam { value; osc; amp; freq }\<close> and V1 \<open>RainParams\<close>.
\<close>

datatype NoiseType = pink | white

record OscParam =
  value_o :: real
  osc_o :: bool
  amp_o :: real
  freq_o :: real

record RainParams =
  volume_rain :: real
  eqGains_rain :: "real list"
  noiseLevel :: real
  noiseType :: NoiseType
  noiseFilterFreq :: OscParam
  dropDryLevel :: real
  dropWetLevel :: real
  dropRate :: real
  dropMinPitch :: OscParam
  dropMaxPitch :: OscParam
  dropDecayTime :: real
  dropReverbLevel :: OscParam
  dropPanRange :: OscParam
  dropQ :: real

definition steady :: "real \<Rightarrow> real \<Rightarrow> real \<Rightarrow> OscParam" where
  "steady v a f = \<lparr>value_o = v, osc_o = False, amp_o = a, freq_o = f\<rparr>"

definition defaultRainParams :: RainParams where
  "defaultRainParams =
     \<lparr>volume_rain = 1/2, eqGains_rain = replicate 10 0, noiseLevel = 1/5, noiseType = pink,
      noiseFilterFreq = steady 4000 1000 (1/10), dropDryLevel = 1/2, dropWetLevel = 1/2,
      dropRate = 30, dropMinPitch = steady 300 100 (1/10), dropMaxPitch = steady 800 500 (1/10),
      dropDecayTime = 1/5, dropReverbLevel = steady (2/5) (1/5) (1/10),
      dropPanRange = steady 1 (1/2) (1/10), dropQ = 1\<rparr>"

text \<open>
  The host. A generator acts on the audio context through node and timer handles; the
  model keeps what its lifecycle can observe: the sample rate, the random source, a
  counter for fresh node ids and timer handles, the scheduled sources on which
  \<open>start()\<close> and \<open>stop()\<close> have been called, and the armed intervals and timeouts. A
  source is playing once started and until stopped. Two host calls can throw:
  \<open>stop()\<close> on a source that was never started (\<open>InvalidStateError\<close>) and
  \<open>createBuffer\<close> with a length that converts to no frame at all
  (\<open>NotSupportedError\<close>); its length argument is truncated to an integer. A method that
  may throw returns \<open>error + state\<close>, and \<open>then_e\<close> runs the next statement on
  success. Timer handles are truthy, so \<open>if (this.dropInterval)\<close> tests for \<open>null\<close>
  only. The static wiring of filters, reverb and EQ bands, and the reverb kernel, are
  host objects that no method below reads; \<open>wired\<close> records whether \<open>destroy()\<close> has
  disconnected them.
\<close>

datatype error = InvalidStateError | NotSupportedError

definition then_e :: "error + 'a \<Rightarrow> ('a \<Rightarrow> error + 'b) \<Rightarrow> error + 'b" where
  "then_e r f = (case r of Inl e \<Rightarrow> Inl e | Inr x \<Rightarrow> f x)"

record Host =
  sampleRate :: nat
  rng :: random_source
  fresh :: nat
  started :: "nat set"
  stopped :: "nat set"
  intervals :: "nat set"
  timeouts :: "nat set"

definition createBuffer :: "real \<Rightarrow> error + real list" where
  "createBuffer len = (if len < 1 then Inl NotSupportedError else Inr (replicate (nat \<lfloor>len\<rfloor>) 0))"

definition startSource :: "nat \<Rightarrow> Host \<Rightarrow> Host" where
  "startSource n h = h\<lparr>started := insert n (started h)\<rparr>"

definition stopSource :: "nat \<Rightarrow> Host \<Rightarrow> error + Host" where
  "stopSource n h =
     (if n \<in> started h then Inr (h\<lparr>stopped := insert n (stopped h)\<rparr>)
      else Inl InvalidStateError)"

definition playing :: "Host \<Rightarrow> nat set" where
  "playing h = started h - stopped h"

definition clearInterval :: "nat \<Rightarrow> Host \<Rightarrow> Host" where
  "clearInterval t h = h\<lparr>intervals := intervals h - {t}\<rparr>"

definition clearTimeout :: "nat \<Rightarrow> Host \<Rightarrow> Host" where
  "clearTimeout t h = h\<lparr>timeouts := timeouts h - {t}\<rparr>"

text \<open>
  The generator's fields: the looping noise source it holds (\<open>noiseNode\<close>), the handle
  of its drop interval, the LFO map in insertion order, the current values of the six
  gains and of the noise filter's frequency, and the EQ band gains. An LFO is an
  oscillator and a gain node wired to one of the two audio parameters that
  \<open>setOscParam\<close> is called on. A \<open>GainNode\<close> is created with gain 1 and a
  \<open>BiquadFilterNode\<close> with frequency 350.
\<close>

record SourceNode =
  node_id :: nat
  buffer :: "real list"
  loop :: bool

datatype Target = NoiseFilter_frequency | WetGain_gain

record Lfo =
  lfo_osc :: nat
  lfo_gain :: nat
  lfo_frequency :: real
  lfo_depth :: real
  lfo_target :: Target

record RainGenerator =
  ctx :: Host
  params :: RainParams
  running :: bool
  noiseNode :: "SourceNode option"
  dropInterval :: "nat option"
  lfoMap :: "(string \<times> Lfo) list"
  output_gain :: real
  noiseGainNode_gain :: real
  dropGainNode_gain :: real
  dryDropGainNode_gain :: real
  dryGain_gain :: real
  wetGain_gain :: real
  noiseFilter_frequency :: real
  eqBands_gain :: "real list"
  wired :: bool

definition RainGenerator_new :: "Host \<Rightarrow> RainParams \<Rightarrow> RainGenerator" where
  "RainGenerator_new h p =
     \<lparr>ctx = h, params = p, running = False, noiseNode = None, dropInterval = None, lfoMap = [],
      output_gain = 1, noiseGainNode_gain = 1, dropGainNode_gain = 1, dryDropGainNode_gain = 1,
      dryGain_gain = 1, wetGain_gain = 1, noiseFilter_frequency = 350,
      eqBands_gain = replicate 10 0, wired = True\<rparr>"

text \<open>
  \<open>_startNoise()\<close>: stop and forget the previous noise source, fill a buffer of
  \<open>2 * sampleRate\<close> samples, and start a new looping source on it.
\<close>

definition dropNoise :: "RainGenerator \<Rightarrow> error + RainGenerator" where
  "dropNoise s =
     (case noiseNode s of
        None \<Rightarrow> Inr s
      | Some nd \<Rightarrow>
          then_e (stopSource (node_id nd) (ctx s)) (\<lambda>h. Inr (s\<lparr>ctx := h, noiseNode := None\<rparr>)))"

definition startNoise :: "RainGenerator \<Rightarrow> error + RainGenerator" where
  "startNoise s =
     then_e (dropNoise s) (\<lambda>s1.
       let bufferSize = 2 * sampleRate (ctx s1) in
       then_e (createBuffer (real bufferSize)) (\<lambda>output.
         let filled = (if noiseType (params s1) = white
                       then whiteLoop bufferSize 0 output (rng (ctx s1))
                       else pinkLoopV1 bufferSize 0 pinkInit output (rng (ctx s1)));
             n = fresh (ctx s1)
         in Inr (s1\<lparr>noiseNode := Some \<lparr>node_id = n, buffer = fst filled, loop = True\<rparr>,
                     ctx := startSource n ((ctx s1)\<lparr>rng := snd filled, fresh := Suc n\<rparr>)\<rparr>)))"

text \<open>
  \<open>setOscParam(param, target, id)\<close> in its two halves: tear down the LFO registered
  under \<open>id\<close>, if any (\<open>dropLfo\<close>); then set the target to \<open>param.value\<close> and, only if the
  generator is running and \<open>param.osc\<close> is set, start a new LFO on it (\<open>addLfo\<close>).
\<close>

definition setTarget :: "Target \<Rightarrow> real \<Rightarrow> RainGenerator \<Rightarrow> RainGenerator" where
  "setTarget target v s =
     (case target of
        NoiseFilter_frequency \<Rightarrow> s\<lparr>noiseFilter_frequency := v\<rparr>
      | WetGain_gain \<Rightarrow> s\<lparr>wetGain_gain := v\<rparr>)"

definition dropLfo :: "string \<Rightarrow> RainGenerator \<Rightarrow> error + RainGenerator" where
  "dropLfo ident s =
     (case map_of (lfoMap s) ident of
          None \<Rightarrow> Inr s
        | Some prev \<Rightarrow>
            then_e (stopSource (lfo_osc prev) (ctx s))
              (\<lambda>h. Inr (s\<lparr>ctx := h, lfoMap := filter (\<lambda>e. fst e \<noteq> ident) (lfoMap s)\<rparr>)))"

definition addLfo :: "OscParam \<Rightarrow> Target \<Rightarrow> string \<Rightarrow> RainGenerator \<Rightarrow> error + RainGenerator" where
  "addLfo param target ident s1 =
     (let s2 = setTarget target (value_o param) s1 in
          if running s2 \<and> osc_o param then
            (let n = fresh (ctx s2) in
             Inr (s2\<lparr>ctx := startSource n ((ctx s2)\<lparr>fresh := Suc (Suc n)\<rparr>),
                     lfoMap := lfoMap s2 @
                       [(ident, \<lparr>lfo_osc = n, lfo_gain = Suc n, lfo_frequency = freq_o param,
                                 lfo_depth = amp_o param, lfo_target = target\<rparr>)]\<rparr>))
          else Inr s2)"

definition setOscParam :: "OscParam \<Rightarrow> Target \<Rightarrow> string \<Rightarrow> RainGenerator \<Rightarrow> error + RainGenerator" where
  "setOscParam param target ident s = then_e (dropLfo ident s) (addLfo param target ident)"

text \<open>
  \<open>_startDrops()\<close> arms a new interval for \<open>playDrop\<close> and stores its handle; the period
  \<open>1000 / dropRate\<close> stays with the host. The setters follow the source one by one.
  \<open>start()\<close> is the synchronous body of the method, on a context that is not suspended.
\<close>

definition startDrops :: "RainGenerator \<Rightarrow> RainGenerator" where
  "startDrops s =
     (let t = fresh (ctx s)
      in s\<lparr>ctx := (ctx s)\<lparr>fresh := Suc t, intervals := insert t (intervals (ctx s))\<rparr>,
           dropInterval := Some t\<rparr>)"

definition setNoiseType :: "NoiseType \<Rightarrow> RainGenerator \<Rightarrow> error + RainGenerator" where
  "setNoiseType type s =
     (let s1 = s\<lparr>params := (params s)\<lparr>noiseType := type\<rparr>\<rparr>
      in if running s1 then startNoise s1 else Inr s1)"

definition setNoiseFilterFreq :: "OscParam \<Rightarrow> RainGenerator \<Rightarrow> error + RainGenerator" where
  "setNoiseFilterFreq param s =
     setOscParam param NoiseFilter_frequency ''noiseFilterFreq''
       (s\<lparr>params := (params s)\<lparr>noiseFilterFreq := param\<rparr>\<rparr>)"

definition setDropReverbLevel :: "OscParam \<Rightarrow> RainGenerator \<Rightarrow> error + RainGenerator" where
  "setDropReverbLevel param s =
     setOscParam param WetGain_gain ''dropReverbLevel''
       (s\<lparr>params := (params s)\<lparr>dropReverbLevel := param\<rparr>\<rparr>)"

definition setDropRate :: "real \<Rightarrow> RainGenerator \<Rightarrow> RainGenerator" where
  "setDropRate param s =
     (let s1 = s\<lparr>params := (params s)\<lparr>dropRate := param\<rparr>\<rparr>;
          s2 = (case dropInterval s1 of
                  None \<Rightarrow> s1
                | Some t \<Rightarrow> s1\<lparr>ctx := clearInterval t (ctx s1)\<rparr>)
      in if running s2 then startDrops s2 else s2)"

definition setPanRange :: "OscParam \<Rightarrow> RainGenerator \<Rightarrow> RainGenerator" where
  "setPanRange param s = s\<lparr>params := (params s)\<lparr>dropPanRange := param\<rparr>\<rparr>"

definition start :: "RainGenerator \<Rightarrow> error + RainGenerator" where
  "start s =
     (if running s then Inr s
      else
        (let p = params s;
             s1 = s\<lparr>running := True, output_gain := volume_rain p,
                    noiseGainNode_gain := volume_rain p * 0.4,
                    dropGainNode_gain := dropWetLevel p,
                    dryDropGainNode_gain := dropDryLevel p,
                    dryGain_gain := noiseLevel p,
                    wetGain_gain := value_o (dropReverbLevel p)\<rparr>
         in then_e (setNoiseType (noiseType (params s1)) s1) (\<lambda>s2.
            then_e (setNoiseFilterFreq (noiseFilterFreq (params s2)) s2) (\<lambda>s3.
            then_e (setDropReverbLevel (dropReverbLevel (params s3)) s3) (\<lambda>s4.
              let s5 = setDropRate (dropRate (params s4)) s4;
                  s6 = setPanRange (dropPanRange (params s5)) s5
              in Inr (startDrops s6))))))"

fun stopLfos :: "(string \<times> Lfo) list \<Rightarrow> Host \<Rightarrow> error + Host" where
  "stopLfos [] h = Inr h"
| "stopLfos (e # es) h = then_e (stopSource (lfo_osc (snd e)) h) (stopLfos es)"

definition stop :: "RainGenerator \<Rightarrow> error + RainGenerator" where
  "stop s =
     then_e (dropNoise (s\<lparr>running := False\<rparr>)) (\<lambda>s1.
       let s2 = (case dropInterval s1 of
                   None \<Rightarrow> s1
                 | Some t \<Rightarrow> s1\<lparr>ctx := clearInterval t (ctx s1), dropInterval := None\<rparr>)
       in then_e (stopLfos (lfoMap s2) (ctx s2)) (\<lambda>h.
            Inr (s2\<lparr>ctx := h, lfoMap := [], output_gain := 0, noiseGainNode_gain := 0,
                    dropGainNode_gain := 0, dryDropGainNode_gain := 0, dryGain_gain := 0,
                    wetGain_gain := 0\<rparr>)))"

definition destroy :: "RainGenerator \<Rightarrow> error + RainGenerator" where
  "destroy s =
     then_e (stop s) (\<lambda>s1. Inr (s1\<lparr>wired := False, lfoMap := [], noiseNode := None,
                                   dropInterval := None\<rparr>))"

text \<open>
  \<open>playDrop\<close>, the callback of the drop interval: one raindrop voice, kept with its
  grain buffer and the values its filter, panner and dry gain are set to.
\<close>

record DropVoice =
  grain :: "real list"
  drop_frequency :: real
  drop_Q :: real
  drop_pan :: real
  drop_dry :: real

definition playDrop :: "RainGenerator \<Rightarrow> error + (DropVoice \<times> RainGenerator)" where
  "playDrop s =
     (let duration = min (dropDecayTime (params s)) 0.2 in
      then_e (createBuffer (real (sampleRate (ctx s)) * duration)) (\<lambda>data0.
        let filled = fadeLoop 2.5 0 data0 (rng (ctx s));
            r1 = Math_random (snd filled);
            r2 = Math_random (snd r1)
        in Inr (\<lparr>grain = fst filled,
                  drop_frequency = value_o (dropMinPitch (params s))
                    + fst r1 * (value_o (dropMaxPitch (params s)) - value_o (dropMinPitch (params s))),
                  drop_Q = dropQ (params s),
                  drop_pan = (fst r2 * 2 - 1) * value_o (dropPanRange (params s)),
                  drop_dry = dropDryLevel (params s)\<rparr>,
                s\<lparr>ctx := (ctx s)\<lparr>rng := snd r2\<rparr>\<rparr>)))"

text \<open>
  The remaining setters. \<open>setParams\<close> takes the spread
  \<open>{ ...this.params, ...newParams }\<close> as a function of the current parameters, and
  \<open>newParams.eqGains\<close> when present.
\<close>

definition setPitchRange :: "OscParam \<Rightarrow> OscParam \<Rightarrow> RainGenerator \<Rightarrow> RainGenerator" where
  "setPitchRange mn mx s = s\<lparr>params := (params s)\<lparr>dropMinPitch := mn, dropMaxPitch := mx\<rparr>\<rparr>"

definition setDecayTime :: "real \<Rightarrow> RainGenerator \<Rightarrow> RainGenerator" where
  "setDecayTime param s = s\<lparr>params := (params s)\<lparr>dropDecayTime := param\<rparr>\<rparr>"

definition setNoiseLevel :: "real \<Rightarrow> RainGenerator \<Rightarrow> RainGenerator" where
  "setNoiseLevel v s = s\<lparr>dryGain_gain := v\<rparr>"

definition setDropDryLevel :: "real \<Rightarrow> RainGenerator \<Rightarrow> RainGenerator" where
  "setDropDryLevel v s = s\<lparr>dryDropGainNode_gain := v\<rparr>"

definition setDropWetLevel :: "real \<Rightarrow> RainGenerator \<Rightarrow> RainGenerator" where
  "setDropWetLevel v s = s\<lparr>dropGainNode_gain := v\<rparr>"

definition setDropQ :: "real \<Rightarrow> RainGenerator \<Rightarrow> RainGenerator" where
  "setDropQ v s = s\<lparr>params := (params s)\<lparr>dropQ := v\<rparr>\<rparr>"

definition setVolume :: "real \<Rightarrow> RainGenerator \<Rightarrow> RainGenerator" where
  "setVolume v s = s\<lparr>output_gain := v\<rparr>"

definition setParams :: "(RainParams \<Rightarrow> RainParams) \<Rightarrow> real list option \<Rightarrow> RainGenerator \<Rightarrow> RainGenerator" where
  "setParams spread newEqGains s =
     (let updated = spread (params s);
          s1 = (case newEqGains of
                  None \<Rightarrow> s
                | Some gs \<Rightarrow> if length gs = length (eqBands_gain s) then s\<lparr>eqBands_gain := gs\<rparr> else s)
      in s1\<lparr>params := updated\<rparr>)"

text \<open>
  \<open>handles_started\<close>: every source the generator holds has been started.
  \<open>silent\<close>: the state a \<open>stop()\<close> leaves. \<open>reachable\<close>: the states of a generator from
  its construction on, through any calls of its public methods and any drop ticks.
\<close>

definition handles_started :: "RainGenerator \<Rightarrow> bool" where
  "handles_started s =
     ((case noiseNode s of None \<Rightarrow> True | Some nd \<Rightarrow> node_id nd \<in> started (ctx s))
      \<and> list_all (\<lambda>e. lfo_osc (snd e) \<in> started (ctx s)) (lfoMap s))"

definition silent :: "RainGenerator \<Rightarrow> bool" where
  "silent s =
     (running s = False \<and> noiseNode s = None \<and> dropInterval s = None \<and> lfoMap s = []
      \<and> output_gain s = 0 \<and> noiseGainNode_gain s = 0 \<and> dropGainNode_gain s = 0
      \<and> dryDropGainNode_gain s = 0 \<and> dryGain_gain s = 0 \<and> wetGain_gain s = 0)"

inductive reachable :: "RainGenerator \<Rightarrow> bool" where
  r_new: "reachable (RainGenerator_new h p)"
| r_start: "reachable s \<Longrightarrow> start s = Inr s' \<Longrightarrow> reachable s'"
| r_stop: "reachable s \<Longrightarrow> stop s = Inr s' \<Longrightarrow> reachable s'"
| r_destroy: "reachable s \<Longrightarrow> destroy s = Inr s' \<Longrightarrow> reachable s'"
| r_setNoiseType: "reachable s \<Longrightarrow> setNoiseType ty s = Inr s' \<Longrightarrow> reachable s'"
| r_setNoiseFilterFreq: "reachable s \<Longrightarrow> setNoiseFilterFreq param s = Inr s' \<Longrightarrow> reachable s'"
| r_setDropReverbLevel: "reachable s \<Longrightarrow> setDropReverbLevel param s = Inr s' \<Longrightarrow> reachable s'"
| r_setDropRate: "reachable s \<Longrightarrow> reachable (setDropRate r s)"
| r_setPanRange: "reachable s \<Longrightarrow> reachable (setPanRange param s)"
| r_setPitchRange: "reachable s \<Longrightarrow> reachable (setPitchRange mn mx s)"
| r_setDecayTime: "reachable s \<Longrightarrow> reachable (setDecayTime r s)"
| r_setNoiseLevel: "reachable s \<Longrightarrow> reachable (setNoiseLevel r s)"
| r_setDropDryLevel: "reachable s \<Longrightarrow> reachable (setDropDryLevel r s)"
| r_setDropWetLevel: "reachable s \<Longrightarrow> reachable (setDropWetLevel r s)"
| r_setDropQ: "reachable s \<Longrightarrow> reachable (setDropQ r s)"
| r_setVolume: "reachable s \<Longrightarrow> reachable (setVolume r s)"
| r_setParams: "reachable s \<Longrightarrow> reachable (setParams spread eq s)"
| r_playDrop: "reachable s \<Longrightarrow> playDrop s = Inr (v, s') \<Longrightarrow> reachable s'"

text \<open>
  V1 \<open>NoiseDController.stop()\<close>: clear the running flag, stop the rain generator, and
  clear an armed thunder timeout.
\<close>

record NoiseDController =
  ctl_running :: bool
  rain :: RainGenerator
  thunderTimeout :: "nat option"

definition controller_stop :: "NoiseDController \<Rightarrow> error + NoiseDController" where
  "controller_stop c =
     then_e (stop (rain c)) (\<lambda>r.
       let c1 = c\<lparr>ctl_running := False, rain := r\<rparr>
       in Inr (case thunderTimeout c1 of
                 None \<Rightarrow> c1
               | Some t \<Rightarrow> c1\<lparr>rain := (rain c1)\<lparr>ctx := clearTimeout t (ctx (rain c1))\<rparr>,
                               thunderTimeout := None\<rparr>))"

section \<open>V2 rain generator\<close>

text \<open>
  V2 \<open>RainGenerator\<close>. The nested parameter object \<open>{ const: { main, noise, drops },
  osc: { noise, drops } }\<close> is flattened: a field is named by its path.
\<close>

record RainParamsV2 =
  const_main_volume :: real
  const_main_eqGains :: "real list"
  const_noise_level :: real
  const_noise_type :: NoiseType
  const_drops_dryLevel :: real
  const_drops_wetLevel :: real
  const_drops_rate :: real
  const_drops_decayTime :: real
  const_drops_q :: real
  osc_noise_filterFreq :: OscParam
  osc_drops_minPitch :: OscParam
  osc_drops_maxPitch :: OscParam
  osc_drops_reverbLevel :: OscParam
  osc_drops_panRange :: OscParam

definition defaultRainParamsV2 :: RainParamsV2 where
  "defaultRainParamsV2 =
     \<lparr>const_main_volume = 1/2, const_main_eqGains = replicate 10 0,
      const_noise_level = 1/5, const_noise_type = pink,
      const_drops_dryLevel = 1/2, const_drops_wetLevel = 1/2, const_drops_rate = 1/2,
      const_drops_decayTime = 1/2, const_drops_q = 1,
      osc_noise_filterFreq = steady 4000 1000 (1/10),
      osc_drops_minPitch = steady 300 100 (1/10),
      osc_drops_maxPitch = steady 800 500 (1/10),
      osc_drops_reverbLevel = steady (2/5) (1/5) (1/10),
      osc_drops_panRange = steady 1 (1/2) (1/10)\<rparr>"

text \<open>
  A V2 raindrop: its noise buffer, the span of the envelope gain's ramp, and the values
  of filter, panner, dry and wet gain. The generator's fields are the scheduler's
  clock \<open>time\<close> and accumulator \<open>dropInterval\<close>, the noise source it holds, and the values
  of the nodes that \<open>start()\<close> and \<open>tick()\<close> set; \<open>spawned\<close> collects the drops handed to
  the host.
\<close>

record DropVoiceV2 =
  grain_v2 :: "real list"
  env_span :: real
  drop2_frequency :: real
  drop2_Q :: real
  drop2_pan :: real
  drop2_dry :: real
  drop2_wet :: real

record RainGeneratorV2 =
  ctx_v2 :: Host
  params_v2 :: RainParamsV2
  time_v2 :: real
  dropInterval_v2 :: real
  noiseSource :: "SourceNode option"
  noiseFilter_frequency_v2 :: real
  noiseGain_gain_v2 :: real
  noiseGainNode_gain_v2 :: real
  filter_wired :: bool
  spawned :: "DropVoiceV2 list"

definition RainGeneratorV2_new :: "Host \<Rightarrow> RainParamsV2 \<Rightarrow> RainGeneratorV2" where
  "RainGeneratorV2_new h initialParams =
     \<lparr>ctx_v2 = h, params_v2 = initialParams, time_v2 = 0, dropInterval_v2 = 0,
      noiseSource = None, noiseFilter_frequency_v2 = 350, noiseGain_gain_v2 = 1,
      noiseGainNode_gain_v2 = 1, filter_wired = True, spawned = []\<rparr>"

text \<open>
  \<open>start()\<close> creates a source, fills its buffer and starts it; it tests nothing first.
  \<open>stop()\<close> stops the source the generator holds and resets the accumulator.
\<close>

definition createNoiseBuffer :: "NoiseType \<Rightarrow> Host \<Rightarrow> error + (real list \<times> random_source)" where
  "createNoiseBuffer type h =
     (let len = sampleRate h * 2 in
      then_e (createBuffer (real len)) (\<lambda>data.
        Inr (if type = white then whiteLoop len 0 data (rng h)
             else pinkLoopV2 len 0 pinkInit data (rng h))))"

definition start_v2 :: "RainGeneratorV2 \<Rightarrow> error + RainGeneratorV2" where
  "start_v2 s =
     (let n = fresh (ctx_v2 s) in
      then_e (createNoiseBuffer (const_noise_type (params_v2 s)) ((ctx_v2 s)\<lparr>fresh := Suc n\<rparr>))
        (\<lambda>filled.
           Inr (s\<lparr>noiseSource := Some \<lparr>node_id = n, buffer = fst filled, loop = True\<rparr>,
                   noiseFilter_frequency_v2 := value_o (osc_noise_filterFreq (params_v2 s)),
                   noiseGain_gain_v2 := const_noise_level (params_v2 s),
                   noiseGainNode_gain_v2 := const_noise_level (params_v2 s),
                   ctx_v2 := startSource n ((ctx_v2 s)\<lparr>fresh := Suc n, rng := snd filled\<rparr>)\<rparr>)))"

definition stop_v2 :: "RainGeneratorV2 \<Rightarrow> error + RainGeneratorV2" where
  "stop_v2 s =
     then_e
       (case noiseSource s of
          None \<Rightarrow> Inr s
        | Some nd \<Rightarrow>
            then_e (stopSource (node_id nd) (ctx_v2 s))
              (\<lambda>h. Inr (s\<lparr>ctx_v2 := h, noiseSource := None\<rparr>)))
       (\<lambda>s1. Inr (s1\<lparr>dropInterval_v2 := 0\<rparr>))"

definition destroy_v2 :: "RainGeneratorV2 \<Rightarrow> error + RainGeneratorV2" where
  "destroy_v2 s = then_e (stop_v2 s) (\<lambda>s1. Inr (s1\<lparr>filter_wired := False\<rparr>))"

text \<open>
  \<open>scheduleDrop()\<close> and the loop of \<open>tick(dt)\<close>,
  \<open>while (this.dropInterval >= timePerDrop) { this.dropInterval -= timePerDrop;
  this.scheduleDrop(); }\<close>. With a negative rate the loop does not end, so its result is
  an option. A rate of 0 makes \<open>timePerDrop\<close> infinite in JavaScript and the loop is
  not entered; \<open>tick\<close> writes that case out, since \<open>1 / 0\<close> is 0 in HOL.
\<close>

definition scheduleDrop :: "RainGeneratorV2 \<Rightarrow> error + RainGeneratorV2" where
  "scheduleDrop s =
     (let duration = const_drops_decayTime (params_v2 s);
          bufferSize = \<lfloor>real (sampleRate (ctx_v2 s)) * duration\<rfloor>
      in then_e (createBuffer (real_of_int bufferSize)) (\<lambda>data0.
           let filled = whiteLoop (nat bufferSize) 0 data0 (rng (ctx_v2 s));
               r1 = randomBetween (value_o (osc_drops_minPitch (params_v2 s)))
                      (value_o (osc_drops_maxPitch (params_v2 s))) (snd filled);
               r2 = randomBetween (- value_o (osc_drops_panRange (params_v2 s)))
                      (value_o (osc_drops_panRange (params_v2 s))) (snd r1)
           in Inr (s\<lparr>ctx_v2 := (ctx_v2 s)\<lparr>rng := snd r2\<rparr>,
                      spawned := spawned s @
                        [\<lparr>grain_v2 = fst filled, env_span = duration, drop2_frequency = fst r1,
                          drop2_Q = const_drops_q (params_v2 s), drop2_pan = fst r2,
                          drop2_dry = const_drops_dryLevel (params_v2 s),
                          drop2_wet = const_drops_wetLevel (params_v2 s)\<rparr>]\<rparr>)))"

partial_function (option) dropLoop ::
  "real \<Rightarrow> RainGeneratorV2 \<Rightarrow> (error + RainGeneratorV2) option" where
  "dropLoop timePerDrop s =
     (if dropInterval_v2 s \<ge> timePerDrop then
        (case scheduleDrop (s\<lparr>dropInterval_v2 := dropInterval_v2 s - timePerDrop\<rparr>) of
           Inl e \<Rightarrow> Some (Inl e)
         | Inr s1 \<Rightarrow> dropLoop timePerDrop s1)
      else Some (Inr s))"

text \<open>
  \<open>applyOsc(param, path)\<close> stores \<open>{ ...param, value: modulated }\<close> at \<open>path\<close>; the path is
  passed as the update it denotes.
\<close>

definition applyOsc ::
  "OscParam \<Rightarrow> (OscParam \<Rightarrow> RainParamsV2 \<Rightarrow> RainParamsV2) \<Rightarrow> RainGeneratorV2 \<Rightarrow> RainGeneratorV2" where
  "applyOsc param path s =
     (let modulated = value_o param + sin (time_v2 s * freq_o param * 2 * pi) * amp_o param
      in s\<lparr>params_v2 := path (param\<lparr>value_o := modulated\<rparr>) (params_v2 s)\<rparr>)"

definition tick :: "real \<Rightarrow> RainGeneratorV2 \<Rightarrow> (error + RainGeneratorV2) option" where
  "tick dt s =
     (let s1 = s\<lparr>time_v2 := time_v2 s + dt, dropInterval_v2 := dropInterval_v2 s + dt\<rparr> in
      case (if const_drops_rate (params_v2 s1) = 0 then Some (Inr s1)
            else dropLoop (1 / const_drops_rate (params_v2 s1)) s1) of
        None \<Rightarrow> None
      | Some (Inl e) \<Rightarrow> Some (Inl e)
      | Some (Inr s2) \<Rightarrow>
          (let s3 = applyOsc (osc_drops_minPitch (params_v2 s2))
                      (\<lambda>v p. p\<lparr>osc_drops_minPitch := v\<rparr>) s2;
               s4 = applyOsc (osc_drops_maxPitch (params_v2 s3))
                      (\<lambda>v p. p\<lparr>osc_drops_maxPitch := v\<rparr>) s3;
               s5 = applyOsc (osc_drops_reverbLevel (params_v2 s4))
                      (\<lambda>v p. p\<lparr>osc_drops_reverbLevel := v\<rparr>) s4;
               s6 = applyOsc (osc_drops_panRange (params_v2 s5))
                      (\<lambda>v p. p\<lparr>osc_drops_panRange := v\<rparr>) s5;
               s7 = applyOsc (osc_noise_filterFreq (params_v2 s6))
                      (\<lambda>v p. p\<lparr>osc_noise_filterFreq := v\<rparr>) s6
           in Some (Inr (s7\<lparr>noiseFilter_frequency_v2 :=
                              value_o (osc_noise_filterFreq (params_v2 s7))\<rparr>))))"

text \<open>
  A host at 44100 Hz with nothing started, whose random source draws 0 every time.
\<close>

definition host0 :: Host where
  "host0 = \<lparr>sampleRate = 44100, rng = zero_source, fresh = 1, started = {}, stopped = {},
            intervals = {}, timeouts = {}\<rparr>"

text \<open>Generators built on the default parameters, at 44100 Hz.\<close>

definition rain0 :: RainGenerator where
  "rain0 = RainGenerator_new host0 defaultRainParams"

definition rainV2_0 :: RainGeneratorV2 where
  "rainV2_0 = RainGeneratorV2_new host0 defaultRainParamsV2"

section \<open>WAV export\<close>

text \<open>
  \<open>NoiseDController._bufferToWavBlob\<close> (V1). An \<open>AudioBuffer\<close> keeps its sample rate,
  its length in frames and one list of samples per channel. The \<open>ArrayBuffer\<close> behind
  the \<open>DataView\<close> is a list of bytes, written by index; the closure variable \<open>offset\<close>
  travels with it. All header writes fall inside the first 44 bytes of a buffer that
  is at least 44 bytes long, so the \<open>RangeError\<close> of an out-of-range write cannot occur.
\<close>

type_synonym byte = "8 word"

record AudioBuffer =
  sampleRate_b :: nat
  length_b :: nat
  channelData :: "real list list"

definition numberOfChannels :: "AudioBuffer \<Rightarrow> nat" where
  "numberOfChannels audioBuffer = length (channelData audioBuffer)"

record DataWriter =
  view :: "byte list"
  offset :: nat

fun writeString :: "string \<Rightarrow> DataWriter \<Rightarrow> DataWriter" where
  "writeString [] w = w"
| "writeString (c # s) w =
     writeString s \<lparr>view = (view w)[offset w := of_char c], offset = Suc (offset w)\<rparr>"

definition writeUint32 :: "nat \<Rightarrow> DataWriter \<Rightarrow> DataWriter" where
  "writeUint32 v w =
     (let x = (word_of_nat v :: 32 word); p = offset w
      in \<lparr>view = (view w)[p := ucast x, p + 1 := ucast (drop_bit 8 x),
                           p + 2 := ucast (drop_bit 16 x), p + 3 := ucast (drop_bit 24 x)],
          offset = p + 4\<rparr>)"

definition writeUint16 :: "nat \<Rightarrow> DataWriter \<Rightarrow> DataWriter" where
  "writeUint16 v w =
     (let x = (word_of_nat v :: 16 word); p = offset w
      in \<lparr>view = (view w)[p := ucast x, p + 1 := ucast (drop_bit 8 x)], offset = p + 2\<rparr>)"

text \<open>
  \<open>buffer.copyFromChannel(interleaved.subarray(ch, interleaved.length), ch)\<close>: the Web
  Audio host call copies the frames of channel \<open>channelNumber\<close>, from frame 0 on, into
  consecutive elements of its destination, as many as fit. The destination is the view
  of \<open>arr\<close> that begins at index \<open>first\<close>, so the frames land at \<open>first\<close>, \<open>first + 1\<close>,
  ... and the rest of \<open>arr\<close> is left as it was.
\<close>

definition copyFromChannel :: "AudioBuffer \<Rightarrow> nat \<Rightarrow> nat \<Rightarrow> real list \<Rightarrow> real list" where
  "copyFromChannel audioBuffer first channelNumber arr =
     (let source = channelData audioBuffer ! channelNumber;
          k = min (length source) (length arr - first)
      in take first arr @ take k source @ drop (first + k) arr)"

text \<open>
  Storing a number into an \<open>Int16Array\<close> truncates it towards zero and wraps it
  modulo \<open>2^16\<close>. \<open>0x8000\<close> is 32768 and \<open>0x7FFF\<close> is 32767. The bytes of the array are
  read in little-endian order.
\<close>

definition toInt16 :: "real \<Rightarrow> 16 word" where
  "toInt16 x = word_of_int (if x < 0 then \<lceil>x\<rceil> else \<lfloor>x\<rfloor>)"

definition sampleToInt16 :: "real \<Rightarrow> 16 word" where
  "sampleToInt16 x =
     (let s = max (- 1) (min 1 x)
      in toInt16 (if s < 0 then s * 32768 else s * 32767))"

definition int16_bytes :: "16 word \<Rightarrow> byte list" where
  "int16_bytes x = [ucast x, ucast (drop_bit 8 x)]"

definition interleaved_of :: "AudioBuffer \<Rightarrow> real list" where
  "interleaved_of audioBuffer =
     fold (\<lambda>ch arr. copyFromChannel audioBuffer ch ch arr) [0..<numberOfChannels audioBuffer]
       (replicate (length_b audioBuffer * numberOfChannels audioBuffer) 0)"

text \<open>
  The thirteen header writes, in source order.
\<close>

definition header :: "AudioBuffer \<Rightarrow> DataWriter" where
  "header audioBuffer =
     (let numOfChan = numberOfChannels audioBuffer;
          len = length_b audioBuffer * numOfChan * 2 + 44;
          w0 = \<lparr>view = replicate len 0, offset = 0\<rparr>;
          w1 = writeString ''RIFF'' w0;
          w2 = writeUint32 (len - 8) w1;
          w3 = writeString ''WAVE'' w2;
          w4 = writeString ''fmt '' w3;
          w5 = writeUint32 16 w4;
          w6 = writeUint16 1 w5;
          w7 = writeUint16 numOfChan w6;
          w8 = writeUint32 (sampleRate_b audioBuffer) w7;
          w9 = writeUint32 (sampleRate_b audioBuffer * numOfChan * 2) w8;
          w10 = writeUint16 (numOfChan * 2) w9;
          w11 = writeUint16 16 w10;
          w12 = writeString ''data'' w11
      in writeUint32 (len - offset w12 - 4) w12)"

definition bufferToWavBlob :: "AudioBuffer \<Rightarrow> byte list" where
  "bufferToWavBlob audioBuffer =
     (let w = header audioBuffer;
          output = map sampleToInt16 (interleaved_of audioBuffer);
          bytes = concat (map int16_bytes output)
      in take (offset w) (view w) @ bytes @ drop (offset w + length bytes) (view w))"

text \<open>
  Readers of the file, for stating the layout: a little-endian 32-bit field, the two
  size fields and the data chunk. \<open>interleave\<close> is the channel-interleaved order of the
  WAV format: frame by frame, channel by channel.
\<close>

definition le32 :: "byte list \<Rightarrow> nat" where
  "le32 bs = foldr (\<lambda>b n. unat b + 256 * n) bs 0"

definition riff_size_field :: "byte list \<Rightarrow> nat" where
  "riff_size_field file = le32 (take 4 (drop 4 file))"

definition data_size_field :: "byte list \<Rightarrow> nat" where
  "data_size_field file = le32 (take 4 (drop 40 file))"

definition data_chunk :: "byte list \<Rightarrow> byte list" where
  "data_chunk file = drop 44 file"

definition interleave :: "AudioBuffer \<Rightarrow> real list" where
  "interleave audioBuffer =
     concat (map (\<lambda>i. map (\<lambda>ch. channelData audioBuffer ! ch ! i) [0..<numberOfChannels audioBuffer])
               [0..<length_b audioBuffer])"

text \<open>
  A stereo audioBuffer of two frames: left \<open>[1, 0.5]\<close>, right \<open>[-1, -0.5]\<close>.
\<close>

definition stereo2 :: AudioBuffer where
  "stereo2 = \<lparr>sampleRate_b = 44100, length_b = 2, channelData = [[1, 1/2], [- 1, - 1/2]]\<rparr>"

section \<open>V2 parameter updates\<close>

text \<open>
  \<open>BaseGenerator.updateParams\<close> walks \<open>Object.entries(newParams)\<close> and assigns a value
  where \<open>key in this.params\<close> holds. The parameter object is modelled by its own
  properties, a map from names to values, and by the names of the writable data
  properties it inherits through its prototype chain (\<open>toString\<close>, \<open>constructor\<close> and
  the other members of \<open>Object.prototype\<close> for an object literal): JavaScript's \<open>in\<close>
  holds for both, and an assignment to either creates or replaces an own property.
  \<open>newParams\<close> is the list of its entries.
\<close>

record 'v JsObject =
  own :: "string \<rightharpoonup> 'v"
  inherited :: "string set"


definition assign :: "string \<Rightarrow> 'v \<Rightarrow> 'v JsObject \<Rightarrow> 'v JsObject" where
  "assign key v obj = obj\<lparr>own := (own obj)(key \<mapsto> v)\<rparr>"



section \<open>Properties of the randomised parameters\<close>

lemma rand_disabled: "\<not> rand_r p \<Longrightarrow> rand p g = (value_r p, g)"
  by (simp add: rand_def)

lemma evalRandV1_disabled_nonzero:
  "\<not> rand_r p \<Longrightarrow> value_r p \<noteq> 0 \<Longrightarrow> evalRandV1 (Some p) fallback g = (value_r p, g)"
  by (simp add: evalRandV1_def truthy_def)

lemma evalRandV1_zero: "value_r p = 0 \<Longrightarrow> evalRandV1 (Some p) fallback g = (fallback, g)"
  by (simp add: evalRandV1_def truthy_def)

text \<open>
  C1. With randomisation disabled a parameter evaluates to its base value, 0 included.
  V1 misses the base value 0: the inline expression tests \<open>p?.value\<close> for truthiness,
  so a disabled \<open>rumbleVolume\<close> of 0 evaluates to the fallback 0.2, and the strike's
  rumble gain starts at 0.2 instead of 0, whatever the random source; V2 \<open>rand\<close>
  returns the base value 0 on the same parameter.
\<close>

theorem C1_v1_zero_value_falls_back:
  "map rumble_gain (rumbles (fst (triggerThunder
       (defaultThunderParams\<lparr>rumbleVolume := Some \<lparr>value_r = 0, rand_r = False, dist_r = 1/10\<rparr>\<rparr>) g)))
     = [1/5]
   \<and> fst (evalRandV1 (Some \<lparr>value_r = 0, rand_r = False, dist_r = 1/10\<rparr>) (1/5) g) = 1/5
   \<and> fst (rand \<lparr>value_r = 0, rand_r = False, dist_r = 1/10\<rparr> g) = 0"
  by (simp add: triggerThunder_def defaultThunderParams_def fixed_def evalRandV1_def
      truthy_def rand_def Let_def)

section \<open>Thunder strikes\<close>









section \<open>The noise loops\<close>

lemma whites_Suc:
  "whites g (Suc n) = (draws g (cursor g) * 2 - 1) # whites (snd (Math_random g)) n"
  by (simp add: whites_def Math_random_def upt_conv_Cons map_Suc_upt [symmetric] del: upt_Suc)





lemma pinkLoopV2_step:
  assumes "i < n" and "i < length out"
  shows "pinkLoopV2 n i st out g =
     pinkLoopV2 n (Suc i) (kellet_next st (fst (Math_random g) * 2 - 1))
       (out[i := kellet_output st (fst (Math_random g) * 2 - 1)]) (snd (Math_random g))"
proof -
  define w where "w = fst (Math_random g) * 2 - 1"
  obtain a0 a1 a2 a3 a4 a5 a6 where st: "st = \<lparr>b0 = a0, b1 = a1, b2 = a2, b3 = a3, b4 = a4, b5 = a5, b6 = a6\<rparr>"
    by (cases st) auto
  have "pinkLoopV2 n i st out g =
     pinkLoopV2 n (Suc i) (kellet_next st w) (out[i := kellet_output st w]) (snd (Math_random g))"
    apply (subst pinkLoopV2.simps)
    unfolding w_def [symmetric] Let_def
    using assms
    apply (simp add: st kellet_next_def kellet_output_def)
    done
  then show ?thesis
    by (simp add: w_def)
qed

lemma pinkLoopV2_kellet:
  "length out = n \<Longrightarrow> i + k = n \<Longrightarrow>
   pinkLoopV2 n i st out g = (take i out @ kellet st (whites g k), g\<lparr>cursor := cursor g + k\<rparr>)"
proof (induction k arbitrary: i st out g)
  case 0
  then have "i = n"
    by simp
  with "0.prems" show ?case
    by (simp add: pinkLoopV2.simps [of n n] whites_def)
next
  case (Suc k)
  let ?w = "fst (Math_random g) * 2 - 1"
  have lt: "i < n" "i < length out"
    using Suc.prems by simp_all
  have "pinkLoopV2 n i st out g =
      pinkLoopV2 n (Suc i) (kellet_next st ?w) (out[i := kellet_output st ?w]) (snd (Math_random g))"
    using lt by (rule pinkLoopV2_step)
  also have "\<dots> = (take (Suc i) (out[i := kellet_output st ?w])
         @ kellet (kellet_next st ?w) (whites (snd (Math_random g)) k),
         (snd (Math_random g))\<lparr>cursor := cursor (snd (Math_random g)) + k\<rparr>)"
    using Suc.prems by (intro Suc.IH) simp_all
  also have "\<dots> = (take i out @ kellet st (whites g (Suc k)), g\<lparr>cursor := cursor g + Suc k\<rparr>)"
    using lt by (simp add: whites_Suc take_Suc_conv_app_nth Math_random_def)
  finally show ?case .
qed


lemma length_whites [simp]: "length (whites g n) = n"
  by (simp add: whites_def)





lemma fadeLoop_rng: "i + k = length data \<Longrightarrow> snd (fadeLoop e i data g) = g\<lparr>cursor := cursor g + k\<rparr>"
proof (induction k arbitrary: i data g)
  case 0
  then show ?case
    by (simp add: fadeLoop.simps [of e "length data" data])
next
  case (Suc k)
  let ?d = "data[i := (fst (Math_random g) * 2 - 1) * (1 - real i / real (length data)) powr e]"
  have lt: "i < length data"
    using Suc.prems by simp
  have "snd (fadeLoop e i data g) = snd (fadeLoop e (Suc i) ?d (snd (Math_random g)))"
    using lt by (simp add: fadeLoop.simps [of e i data])
  also have "\<dots> = (snd (Math_random g))\<lparr>cursor := cursor (snd (Math_random g)) + k\<rparr>"
    using Suc.prems by (intro Suc.IH) simp_all
  finally show ?case
    by (simp add: Math_random_def)
qed

section \<open>Rain generators\<close>

lemma createBuffer_ok: "1 \<le> len \<Longrightarrow> createBuffer len = Inr (replicate (nat \<lfloor>len\<rfloor>) 0)"
  by (simp add: createBuffer_def)

lemma createBuffer_nat: "0 < n \<Longrightarrow> createBuffer (real n) = Inr (replicate n 0)"
proof -
  assume "0 < n"
  then have "\<not> real n < 1"
    by simp
  moreover have "nat \<lfloor>real n\<rfloor> = n"
    by simp
  ultimately show ?thesis
    unfolding createBuffer_def by simp
qed

lemma createNoiseBuffer_pink:
  assumes "0 < sampleRate h"
  shows "createNoiseBuffer pink h =
    Inr (kellet pinkInit (whites (rng h) (sampleRate h * 2)),
         (rng h)\<lparr>cursor := cursor (rng h) + sampleRate h * 2\<rparr>)"
proof -
  have "createBuffer (real (sampleRate h * 2)) = Inr (replicate (sampleRate h * 2) 0)"
    using assms by (rule_tac createBuffer_nat) simp
  then show ?thesis
    by (simp add: createNoiseBuffer_def then_e_def Let_def pinkLoopV2_kellet [where k = "sampleRate h * 2"])
qed



text \<open>
  C2. With oscillation disabled an oscillating parameter keeps its base value, tick
  after tick. V2 \<open>applyOsc\<close> never reads the \<open>osc\<close> flag: one \<open>tick(2.5)\<close> of a
  generator built on the default parameters (every \<open>osc\<close> flag false) moves
  \<open>osc.drops.minPitch.value\<close> from 300 to \<open>300 + sin (2.5 \<cdot> 0.1 \<cdot> 2\<pi>) \<cdot> 100 = 400\<close>
  and stores it as the new base value.
\<close>

theorem C2_v2_tick_modulates_disabled_param:
  "\<exists>s. tick (5/2) (RainGeneratorV2_new host0 defaultRainParamsV2) = Some (Inr s)
     \<and> osc_o (osc_drops_minPitch defaultRainParamsV2) = False
     \<and> value_o (osc_drops_minPitch defaultRainParamsV2) = 300
     \<and> value_o (osc_drops_minPitch (params_v2 s)) = 400"
  by (simp add: tick_def Let_def RainGeneratorV2_new_def defaultRainParamsV2_def
      dropLoop.simps scheduleDrop_def host0_def createBuffer_def then_e_def
      applyOsc_def steady_def)

lemma floor_ge_one: "1 \<le> x \<Longrightarrow> 0 < nat \<lfloor>x :: real\<rfloor>"
  by linarith






section \<open>Lifecycle of the V1 rain generator\<close>

lemma then_e_Inr: "then_e r f = Inr y \<Longrightarrow> \<exists>x. r = Inr x \<and> f x = Inr y"
  by (cases r) (simp_all add: then_e_def)

lemma then_e_Inr_simp [simp]: "then_e (Inr x) f = f x"
  by (simp add: then_e_def)

lemma stopSource_started: "n \<in> started h \<Longrightarrow> stopSource n h = Inr (h\<lparr>stopped := insert n (stopped h)\<rparr>)"
  by (simp add: stopSource_def)

lemma stopSource_Inr: "stopSource n h = Inr h' \<Longrightarrow> h' = h\<lparr>stopped := insert n (stopped h)\<rparr>"
  by (simp add: stopSource_def split: if_splits)

lemma stopLfos_ok:
  "list_all (\<lambda>e. lfo_osc (snd e) \<in> started h) es \<Longrightarrow>
   \<exists>h'. stopLfos es h = Inr h' \<and> started h' = started h"
proof (induction es arbitrary: h)
  case Nil
  then show ?case by simp
next
  case (Cons e es)
  define h1 where "h1 = h\<lparr>stopped := insert (lfo_osc (snd e)) (stopped h)\<rparr>"
  from Cons.prems have a: "lfo_osc (snd e) \<in> started h"
    and b: "list_all (\<lambda>x. lfo_osc (snd x) \<in> started h1) es"
    by (simp_all add: h1_def)
  from Cons.IH [OF b] a show ?case
    by (simp add: stopSource_started h1_def)
qed

lemma dropNoise_ok:
  "handles_started s \<Longrightarrow>
   \<exists>s1. dropNoise s = Inr s1 \<and> noiseNode s1 = None \<and> started (ctx s1) = started (ctx s)
      \<and> lfoMap s1 = lfoMap s \<and> running s1 = running s \<and> dropInterval s1 = dropInterval s"
  by (cases "noiseNode s") (simp_all add: dropNoise_def handles_started_def stopSource_started)

lemma dropNoise_Inr:
  "dropNoise s = Inr s1 \<Longrightarrow>
   noiseNode s1 = None \<and> started (ctx s1) = started (ctx s) \<and> lfoMap s1 = lfoMap s
     \<and> running s1 = running s \<and> params s1 = params s"
  by (cases "noiseNode s")
     (auto simp add: dropNoise_def dest!: then_e_Inr stopSource_Inr)

lemma stop_ok:
  assumes "handles_started s"
  shows "\<exists>s'. stop s = Inr s' \<and> silent s' \<and> params s' = params s \<and> wired s' = wired s"
proof -
  have "handles_started (s\<lparr>running := False\<rparr>)"
    using assms by (simp add: handles_started_def split: option.splits)
  from dropNoise_ok [OF this] obtain s1 where
    s1: "dropNoise (s\<lparr>running := False\<rparr>) = Inr s1" "noiseNode s1 = None"
      "started (ctx s1) = started (ctx s)" "lfoMap s1 = lfoMap s" "running s1 = False"
    by auto
  have p1: "params s1 = params s" "wired s1 = wired s"
    using s1(1) by (cases "noiseNode s"; auto simp add: dropNoise_def dest!: then_e_Inr stopSource_Inr)+
  define s2 where "s2 = (case dropInterval s1 of
                   None \<Rightarrow> s1
                 | Some t \<Rightarrow> s1\<lparr>ctx := clearInterval t (ctx s1), dropInterval := None\<rparr>)"
  have s2: "noiseNode s2 = None" "dropInterval s2 = None" "running s2 = False"
    "lfoMap s2 = lfoMap s" "started (ctx s2) = started (ctx s)" "params s2 = params s"
    "wired s2 = wired s"
    using s1 p1 by (simp_all add: s2_def clearInterval_def split: option.splits)
  have "list_all (\<lambda>e. lfo_osc (snd e) \<in> started (ctx s2)) (lfoMap s2)"
    using assms s2 by (simp add: handles_started_def)
  from stopLfos_ok [OF this] obtain h where h: "stopLfos (lfoMap s2) (ctx s2) = Inr h"
    by blast
  show ?thesis
    unfolding stop_def s1(1) then_e_Inr_simp Let_def s2_def [symmetric] h
    using s2 by (simp add: silent_def)
qed

lemma stop_silent:
  assumes "silent s"
  shows "stop s = Inr s"
proof -
  have "s\<lparr>running := False\<rparr> = s"
    using assms by (simp add: silent_def)
  moreover have "s\<lparr>ctx := ctx s, lfoMap := [], output_gain := 0, noiseGainNode_gain := 0,
      dropGainNode_gain := 0, dryDropGainNode_gain := 0, dryGain_gain := 0, wetGain_gain := 0\<rparr> = s"
    using assms by (simp add: silent_def)
  ultimately show ?thesis
    using assms by (simp add: stop_def dropNoise_def silent_def Let_def)
qed

lemma handles_started_mono:
  "handles_started s \<Longrightarrow> noiseNode s' = noiseNode s \<Longrightarrow> lfoMap s' = lfoMap s \<Longrightarrow>
   started (ctx s) \<subseteq> started (ctx s') \<Longrightarrow> handles_started s'"
  by (cases "noiseNode s") (auto simp add: handles_started_def list_all_iff)

lemma startNoise_Inr:
  assumes "startNoise s = Inr s'"
  shows "\<exists>nd. noiseNode s' = Some nd \<and> node_id nd \<in> started (ctx s') \<and> lfoMap s' = lfoMap s
           \<and> started (ctx s) \<subseteq> started (ctx s')"
proof -
  from assms obtain s1 where a: "dropNoise s = Inr s1"
    and b: "(let bufferSize = 2 * sampleRate (ctx s1) in
       then_e (createBuffer (real bufferSize)) (\<lambda>output.
         let filled = (if noiseType (params s1) = white
                       then whiteLoop bufferSize 0 output (rng (ctx s1))
                       else pinkLoopV1 bufferSize 0 pinkInit output (rng (ctx s1)));
             n = fresh (ctx s1)
         in Inr (s1\<lparr>noiseNode := Some \<lparr>node_id = n, buffer = fst filled, loop = True\<rparr>,
                     ctx := startSource n ((ctx s1)\<lparr>rng := snd filled, fresh := Suc n\<rparr>)\<rparr>))) = Inr s'"
    unfolding startNoise_def by (blast dest: then_e_Inr)
  from b obtain out filled where
    c: "s' = s1\<lparr>noiseNode := Some \<lparr>node_id = fresh (ctx s1), buffer = fst filled, loop = True\<rparr>,
                     ctx := startSource (fresh (ctx s1)) ((ctx s1)\<lparr>rng := snd filled, fresh := Suc (fresh (ctx s1))\<rparr>)\<rparr>"
    unfolding Let_def by (blast dest: then_e_Inr)
  from dropNoise_Inr [OF a] have d: "started (ctx s1) = started (ctx s)" "lfoMap s1 = lfoMap s"
    by simp_all
  show ?thesis
    unfolding c using d by (simp add: startSource_def) blast
qed

lemma startNoise_inv:
  assumes "handles_started s" and "startNoise s = Inr s'"
  shows "handles_started s'"
proof -
  from startNoise_Inr [OF assms(2)] obtain nd where
    a: "noiseNode s' = Some nd" "node_id nd \<in> started (ctx s')" "lfoMap s' = lfoMap s"
      "started (ctx s) \<subseteq> started (ctx s')"
    by blast
  have "list_all (\<lambda>e. lfo_osc (snd e) \<in> started (ctx s)) (lfoMap s)"
    using assms(1) by (simp add: handles_started_def)
  then have "list_all (\<lambda>e. lfo_osc (snd e) \<in> started (ctx s')) (lfoMap s')"
    using a(3,4) by (auto simp add: list_all_iff)
  with a(1,2) show ?thesis
    by (simp add: handles_started_def)
qed

lemma setTarget_fields [simp]:
  "ctx (setTarget tg v s) = ctx s" "lfoMap (setTarget tg v s) = lfoMap s"
  "noiseNode (setTarget tg v s) = noiseNode s" "running (setTarget tg v s) = running s"
  by (cases tg; simp add: setTarget_def)+

lemma dropLfo_inv:
  assumes "handles_started s"
    and "(case map_of (lfoMap s) ident of
          None \<Rightarrow> Inr s
        | Some prev \<Rightarrow>
            then_e (stopSource (lfo_osc prev) (ctx s))
              (\<lambda>h. Inr (s\<lparr>ctx := h, lfoMap := filter (\<lambda>e. fst e \<noteq> ident) (lfoMap s)\<rparr>))) = Inr s1"
  shows "handles_started s1"
proof (cases "map_of (lfoMap s) ident")
  case None
  with assms show ?thesis
    by simp
next
  case (Some prev)
  with assms(2) obtain h where h: "stopSource (lfo_osc prev) (ctx s) = Inr h"
    and s1: "s1 = s\<lparr>ctx := h, lfoMap := filter (\<lambda>e. fst e \<noteq> ident) (lfoMap s)\<rparr>"
    by (auto dest!: then_e_Inr)
  from stopSource_Inr [OF h] have st: "started h = started (ctx s)"
    by simp
  have "list_all (\<lambda>e. lfo_osc (snd e) \<in> started (ctx s)) (lfoMap s)"
    using assms(1) by (simp add: handles_started_def)
  then have "list_all (\<lambda>e. lfo_osc (snd e) \<in> started h) (filter (\<lambda>e. fst e \<noteq> ident) (lfoMap s))"
    unfolding st by (simp add: list_all_iff)
  moreover have "(case noiseNode s of None \<Rightarrow> True | Some nd \<Rightarrow> node_id nd \<in> started h)"
    using assms(1) unfolding st by (simp add: handles_started_def)
  ultimately show ?thesis
    unfolding s1 by (cases "noiseNode s") (simp_all add: handles_started_def)
qed

lemma addLfo_inv:
  assumes "handles_started s"
  shows "handles_started (s\<lparr>ctx := startSource n ((ctx s)\<lparr>fresh := k\<rparr>),
                     lfoMap := lfoMap s @ [(ident, \<lparr>lfo_osc = n, lfo_gain = m, lfo_frequency = f,
                                 lfo_depth = a, lfo_target = tg\<rparr>)]\<rparr>)"
proof -
  have "list_all (\<lambda>e. lfo_osc (snd e) \<in> started (ctx s)) (lfoMap s)"
    using assms by (simp add: handles_started_def)
  then have "list_all (\<lambda>e. lfo_osc (snd e) \<in> insert n (started (ctx s))) (lfoMap s)"
    by (simp add: list_all_iff)
  moreover have "(case noiseNode s of None \<Rightarrow> True | Some nd \<Rightarrow> node_id nd \<in> insert n (started (ctx s)))"
    using assms by (cases "noiseNode s") (simp_all add: handles_started_def)
  ultimately show ?thesis
    by (cases "noiseNode s") (simp_all add: handles_started_def startSource_def)
qed

lemma setTarget_inv: "handles_started s \<Longrightarrow> handles_started (setTarget tg v s)"
  by (erule handles_started_mono) simp_all

lemma then_e_InrE:
  assumes "then_e r f = Inr y"
  obtains x where "r = Inr x" and "f x = Inr y"
  using assms by (cases r) (simp_all add: then_e_def)

lemma addLfo_inv2:
  assumes "handles_started s1" and "addLfo param tg ident s1 = Inr s'"
  shows "handles_started s'"
proof -
  have s2: "handles_started (setTarget tg (value_o param) s1)"
    using assms(1) by (rule setTarget_inv)
  show ?thesis
  proof (cases "running s1 \<and> osc_o param")
    case True
    with assms(2) have "s' = (setTarget tg (value_o param) s1)
         \<lparr>ctx := startSource (fresh (ctx s1)) ((ctx (setTarget tg (value_o param) s1))\<lparr>fresh := Suc (Suc (fresh (ctx s1)))\<rparr>),
                     lfoMap := lfoMap (setTarget tg (value_o param) s1) @
                       [(ident, \<lparr>lfo_osc = fresh (ctx s1), lfo_gain = Suc (fresh (ctx s1)), lfo_frequency = freq_o param,
                                 lfo_depth = amp_o param, lfo_target = tg\<rparr>)]\<rparr>"
      by (simp add: addLfo_def Let_def)
    then show ?thesis
      using addLfo_inv [OF s2] by simp
  next
    case False
    with assms(2) have "s' = setTarget tg (value_o param) s1"
      by (auto simp add: addLfo_def Let_def)
    with s2 show ?thesis
      by simp
  qed
qed

lemma setOscParam_inv:
  assumes "handles_started s" and "setOscParam param tg ident s = Inr s'"
  shows "handles_started s'"
proof -
  from assms(2) obtain s1 where a: "dropLfo ident s = Inr s1" and b: "addLfo param tg ident s1 = Inr s'"
    unfolding setOscParam_def by (rule then_e_InrE)
  from a have "handles_started s1"
    unfolding dropLfo_def by (rule dropLfo_inv [OF assms(1)])
  then show ?thesis
    using b by (rule addLfo_inv2)
qed

lemma params_update_inv: "handles_started s \<Longrightarrow> handles_started (s\<lparr>params := p\<rparr>)"
  by (erule handles_started_mono) simp_all

lemma setNoiseType_inv:
  assumes "handles_started s" and "setNoiseType ty s = Inr s'"
  shows "handles_started s'"
proof -
  have i: "handles_started (s\<lparr>params := (params s)\<lparr>noiseType := ty\<rparr>\<rparr>)"
    using assms(1) by (rule params_update_inv)
  show ?thesis
  proof (cases "running s")
    case True
    with assms(2) have "startNoise (s\<lparr>params := (params s)\<lparr>noiseType := ty\<rparr>\<rparr>) = Inr s'"
      by (simp add: setNoiseType_def Let_def)
    with i show ?thesis
      by (rule startNoise_inv)
  next
    case False
    with assms(2) have "s' = s\<lparr>params := (params s)\<lparr>noiseType := ty\<rparr>\<rparr>"
      by (simp add: setNoiseType_def Let_def)
    with i show ?thesis
      by simp
  qed
qed

lemma setNoiseFilterFreq_inv:
  assumes "handles_started s" and "setNoiseFilterFreq param s = Inr s'"
  shows "handles_started s'"
  using params_update_inv [OF assms(1)] assms(2) unfolding setNoiseFilterFreq_def
  by (rule setOscParam_inv)

lemma setDropReverbLevel_inv:
  assumes "handles_started s" and "setDropReverbLevel param s = Inr s'"
  shows "handles_started s'"
  using params_update_inv [OF assms(1)] assms(2) unfolding setDropReverbLevel_def
  by (rule setOscParam_inv)

lemma startDrops_inv: "handles_started s \<Longrightarrow> handles_started (startDrops s)"
  by (erule handles_started_mono) (simp_all add: startDrops_def Let_def)

lemma setDropRate_inv: "handles_started s \<Longrightarrow> handles_started (setDropRate r s)"
  by (erule handles_started_mono)
     (simp_all add: setDropRate_def startDrops_def Let_def clearInterval_def split: option.splits)

lemma setPanRange_inv: "handles_started s \<Longrightarrow> handles_started (setPanRange param s)"
  unfolding setPanRange_def by (rule params_update_inv)

lemma start_inv:
  assumes "handles_started s" and "start s = Inr s'"
  shows "handles_started s'"
proof (cases "running s")
  case True
  with assms show ?thesis
    by (simp add: start_def)
next
  case False
  define s1 where "s1 = s\<lparr>running := True, output_gain := volume_rain (params s),
                    noiseGainNode_gain := volume_rain (params s) * 0.4,
                    dropGainNode_gain := dropWetLevel (params s),
                    dryDropGainNode_gain := dropDryLevel (params s),
                    dryGain_gain := noiseLevel (params s),
                    wetGain_gain := value_o (dropReverbLevel (params s))\<rparr>"
  have i1: "handles_started s1"
    using assms(1) unfolding s1_def by (erule_tac handles_started_mono) simp_all
  have st: "start s =
      then_e (setNoiseType (noiseType (params s1)) s1) (\<lambda>s2.
            then_e (setNoiseFilterFreq (noiseFilterFreq (params s2)) s2) (\<lambda>s3.
            then_e (setDropReverbLevel (dropReverbLevel (params s3)) s3) (\<lambda>s4.
              Inr (startDrops (setPanRange (dropPanRange (params (setDropRate (dropRate (params s4)) s4)))
                 (setDropRate (dropRate (params s4)) s4))))))"
    using False unfolding start_def Let_def s1_def by simp
  from assms(2) [unfolded st] obtain s2 where
    a: "setNoiseType (noiseType (params s1)) s1 = Inr s2"
    and a': "then_e (setNoiseFilterFreq (noiseFilterFreq (params s2)) s2) (\<lambda>s3.
            then_e (setDropReverbLevel (dropReverbLevel (params s3)) s3) (\<lambda>s4.
              Inr (startDrops (setPanRange (dropPanRange (params (setDropRate (dropRate (params s4)) s4)))
                 (setDropRate (dropRate (params s4)) s4))))) = Inr s'"
    by (rule then_e_InrE)
  from a' obtain s3 where
    b: "setNoiseFilterFreq (noiseFilterFreq (params s2)) s2 = Inr s3"
    and b': "then_e (setDropReverbLevel (dropReverbLevel (params s3)) s3) (\<lambda>s4.
              Inr (startDrops (setPanRange (dropPanRange (params (setDropRate (dropRate (params s4)) s4)))
                 (setDropRate (dropRate (params s4)) s4)))) = Inr s'"
    by (rule then_e_InrE)
  from b' obtain s4 where
    c: "setDropReverbLevel (dropReverbLevel (params s3)) s3 = Inr s4"
    and d: "Inr (startDrops (setPanRange (dropPanRange (params (setDropRate (dropRate (params s4)) s4)))
                 (setDropRate (dropRate (params s4)) s4))) = (Inr s' :: error + RainGenerator)"
    by (rule then_e_InrE)
  from setNoiseType_inv [OF i1 a] have "handles_started s2" .
  from setNoiseFilterFreq_inv [OF this b] have "handles_started s3" .
  from setDropReverbLevel_inv [OF this c] have "handles_started s4" .
  then have "handles_started (startDrops (setPanRange (dropPanRange (params (setDropRate (dropRate (params s4)) s4)))
                 (setDropRate (dropRate (params s4)) s4)))"
    by (intro startDrops_inv setPanRange_inv setDropRate_inv)
  with d show ?thesis
    by (simp add: Let_def)
qed

lemma silent_handles_started: "silent s \<Longrightarrow> handles_started s"
  by (simp add: silent_def handles_started_def)

lemma stop_inv:
  assumes "handles_started s" and "stop s = Inr s'"
  shows "handles_started s'"
proof -
  from stop_ok [OF assms(1)] obtain t where "stop s = Inr t" "silent t"
    by blast
  with assms(2) have "silent s'"
    by simp
  then show ?thesis
    by (rule silent_handles_started)
qed

lemma destroy_inv:
  assumes "handles_started s" and "destroy s = Inr s'"
  shows "handles_started s'"
proof -
  from assms(2) obtain s1 where a: "stop s = Inr s1"
    and b: "Inr (s1\<lparr>wired := False, lfoMap := [], noiseNode := None, dropInterval := None\<rparr>) = (Inr s' :: error + RainGenerator)"
    unfolding destroy_def by (rule then_e_InrE)
  from b have "s' = s1\<lparr>wired := False, lfoMap := [], noiseNode := None, dropInterval := None\<rparr>"
    by simp
  then show ?thesis
    by (simp add: handles_started_def)
qed

lemma playDrop_inv:
  assumes "handles_started s" and "playDrop s = Inr (v, s')"
  shows "handles_started s'"
proof -
  from assms(2) obtain data0 where
    "(let filled = fadeLoop 2.5 0 data0 (rng (ctx s));
            r1 = Math_random (snd filled);
            r2 = Math_random (snd r1)
        in Inr (\<lparr>grain = fst filled,
                  drop_frequency = value_o (dropMinPitch (params s))
                    + fst r1 * (value_o (dropMaxPitch (params s)) - value_o (dropMinPitch (params s))),
                  drop_Q = dropQ (params s),
                  drop_pan = (fst r2 * 2 - 1) * value_o (dropPanRange (params s)),
                  drop_dry = dropDryLevel (params s)\<rparr>,
                s\<lparr>ctx := (ctx s)\<lparr>rng := snd r2\<rparr>\<rparr>)) = (Inr (v, s') :: error + DropVoice \<times> RainGenerator)"
    unfolding playDrop_def Let_def by (rule then_e_InrE)
  then have "\<exists>g. s' = s\<lparr>ctx := (ctx s)\<lparr>rng := g\<rparr>\<rparr>"
    by (auto simp add: Let_def)
  then obtain g where "s' = s\<lparr>ctx := (ctx s)\<lparr>rng := g\<rparr>\<rparr>" ..
  with assms(1) show ?thesis
    by (cases "noiseNode s") (simp_all add: handles_started_def)
qed

lemma setParams_inv: "handles_started s \<Longrightarrow> handles_started (setParams spread eq s)"
  by (erule handles_started_mono)
     (simp_all add: setParams_def Let_def split: option.splits)

lemma reachable_handles_started: "reachable s \<Longrightarrow> handles_started s"
proof (induction rule: reachable.induct)
  case (r_new h p)
  show ?case
    by (simp add: handles_started_def RainGenerator_new_def)
next
  case (r_start s s')
  then show ?case by (blast intro: start_inv)
next
  case (r_stop s s')
  then show ?case by (blast intro: stop_inv)
next
  case (r_destroy s s')
  then show ?case by (blast intro: destroy_inv)
next
  case (r_setNoiseType s ty s')
  then show ?case by (blast intro: setNoiseType_inv)
next
  case (r_setNoiseFilterFreq s param s')
  then show ?case by (blast intro: setNoiseFilterFreq_inv)
next
  case (r_setDropReverbLevel s param s')
  then show ?case by (blast intro: setDropReverbLevel_inv)
next
  case (r_setDropRate s r)
  then show ?case by (blast intro: setDropRate_inv)
next
  case (r_setPanRange s param)
  then show ?case by (blast intro: setPanRange_inv)
next
  case (r_setPitchRange s mn mx)
  then show ?case unfolding setPitchRange_def by (blast intro: params_update_inv)
next
  case (r_setDecayTime s r)
  then show ?case unfolding setDecayTime_def by (blast intro: params_update_inv)
next
  case (r_setNoiseLevel s r)
  then have "handles_started s" by simp
  then show ?case unfolding setNoiseLevel_def by (rule handles_started_mono) simp_all
next
  case (r_setDropDryLevel s r)
  then have "handles_started s" by simp
  then show ?case unfolding setDropDryLevel_def by (rule handles_started_mono) simp_all
next
  case (r_setDropWetLevel s r)
  then have "handles_started s" by simp
  then show ?case unfolding setDropWetLevel_def by (rule handles_started_mono) simp_all
next
  case (r_setDropQ s r)
  then show ?case unfolding setDropQ_def by (blast intro: params_update_inv)
next
  case (r_setVolume s r)
  then have "handles_started s" by simp
  then show ?case unfolding setVolume_def by (rule handles_started_mono) simp_all
next
  case (r_setParams s spread eq)
  then show ?case by (blast intro: setParams_inv)
next
  case (r_playDrop s v s')
  then show ?case by (blast intro: playDrop_inv)
qed

lemma start_running: "running s \<Longrightarrow> start s = Inr s"
  by (simp add: start_def)

lemma stop_new:
  "stop (RainGenerator_new h p) =
     Inr ((RainGenerator_new h p)\<lparr>output_gain := 0, noiseGainNode_gain := 0, dropGainNode_gain := 0,
            dryDropGainNode_gain := 0, dryGain_gain := 0, wetGain_gain := 0\<rparr>)"
  by (simp add: stop_def dropNoise_def RainGenerator_new_def Let_def)

lemma controller_stop_twice:
  assumes "handles_started (rain c)"
  shows "\<exists>c'. controller_stop c = Inr c' \<and> controller_stop c' = Inr c'"
proof -
  from stop_ok [OF assms] obtain r where r: "stop (rain c) = Inr r" "silent r"
    by blast
  define c' where "c' = (case thunderTimeout c of
                 None \<Rightarrow> c\<lparr>ctl_running := False, rain := r\<rparr>
               | Some t \<Rightarrow> c\<lparr>ctl_running := False, rain := r\<lparr>ctx := clearTimeout t (ctx r)\<rparr>,
                               thunderTimeout := None\<rparr>)"
  have 1: "controller_stop c = Inr c'"
    by (simp add: controller_stop_def r(1) Let_def c'_def split: option.splits)
  have "silent (rain c')" "thunderTimeout c' = None" "ctl_running c' = False"
    using r(2) by (simp_all add: c'_def silent_def split: option.splits)
  then have "controller_stop c' = Inr c'"
    by (simp add: controller_stop_def stop_silent Let_def)
  with 1 show ?thesis
    by blast
qed

text \<open>
  C9, as the code has it. In every state the V1 rain generator can reach, \<open>stop()\<close>
  returns without an exception, and a second \<open>stop()\<close> returns the very state the
  first one left: not running, no noise source, no drop timer, no LFO, the six gains at
  0. The same holds for \<open>stop()\<close> of the V1 controller. On a generator that was never
  started \<open>stop()\<close> raises nothing and leaves flag, handles and LFO map as they were,
  but it is not a no-op: it sets the six gains, 1 after construction, to 0.
\<close>

theorem C9_stop_twice_is_stop_once:
  assumes "reachable s" and "reachable (rain c)"
  shows "(\<exists>s'. stop s = Inr s' \<and> stop s' = Inr s' \<and> silent s')
   \<and> (\<exists>c'. controller_stop c = Inr c' \<and> controller_stop c' = Inr c')
   \<and> stop (RainGenerator_new h p) =
       Inr ((RainGenerator_new h p)\<lparr>output_gain := 0, noiseGainNode_gain := 0,
              dropGainNode_gain := 0, dryDropGainNode_gain := 0, dryGain_gain := 0,
              wetGain_gain := 0\<rparr>)"
proof -
  from stop_ok [OF reachable_handles_started [OF assms(1)]] obtain s'
    where s': "stop s = Inr s'" "silent s'"
    by blast
  from s'(2) have "stop s' = Inr s'"
    by (rule stop_silent)
  with s' have 1: "\<exists>s'. stop s = Inr s' \<and> stop s' = Inr s' \<and> silent s'"
    by blast
  have 2: "\<exists>c'. controller_stop c = Inr c' \<and> controller_stop c' = Inr c'"
    by (rule controller_stop_twice [OF reachable_handles_started [OF assms(2)]])
  from 1 2 stop_new [of h p] show ?thesis
    by (intro conjI)
qed

lemma setTarget_params [simp]: "params (setTarget tg v s) = params s"
  by (cases tg; simp add: setTarget_def)

lemma start_rain0: "\<exists>s1. start rain0 = Inr s1 \<and> running s1 \<and> noiseNode s1 \<noteq> None"
proof -
  have cb: "createBuffer (real (2 * sampleRate host0)) = Inr (replicate 88200 0)"
    by (simp add: createBuffer_def host0_def)
  define s1 where "s1 = rain0\<lparr>running := True, output_gain := volume_rain (params rain0),
                    noiseGainNode_gain := volume_rain (params rain0) * 0.4,
                    dropGainNode_gain := dropWetLevel (params rain0),
                    dryDropGainNode_gain := dropDryLevel (params rain0),
                    dryGain_gain := noiseLevel (params rain0),
                    wetGain_gain := value_o (dropReverbLevel (params rain0))\<rparr>"
  have f1: "running s1" "noiseNode s1 = None" "ctx s1 = host0" "lfoMap s1 = []"
    "noiseType (params s1) = pink"
    by (simp_all add: s1_def rain0_def RainGenerator_new_def defaultRainParams_def)
  obtain s2 where s2: "setNoiseType (noiseType (params s1)) s1 = Inr s2" "running s2"
    "noiseNode s2 \<noteq> None" "lfoMap s2 = []"
    "\<not> osc_o (noiseFilterFreq (params s2))" "\<not> osc_o (dropReverbLevel (params s2))"
    using f1 cb
    by (simp add: setNoiseType_def Let_def startNoise_def dropNoise_def s1_def rain0_def
        RainGenerator_new_def defaultRainParams_def steady_def)
  obtain s3 where s3: "setNoiseFilterFreq (noiseFilterFreq (params s2)) s2 = Inr s3" "running s3"
    "noiseNode s3 \<noteq> None" "lfoMap s3 = []" "\<not> osc_o (dropReverbLevel (params s3))"
    using s2 by (simp add: setNoiseFilterFreq_def setOscParam_def dropLfo_def addLfo_def Let_def)
  obtain s4 where s4: "setDropReverbLevel (dropReverbLevel (params s3)) s3 = Inr s4" "running s4"
    "noiseNode s4 \<noteq> None"
    using s3 by (simp add: setDropReverbLevel_def setOscParam_def dropLfo_def addLfo_def Let_def)
  have "start rain0 = Inr (startDrops (setPanRange (dropPanRange (params (setDropRate (dropRate (params s4)) s4)))
                 (setDropRate (dropRate (params s4)) s4)))"
    using s2(1) s3(1) s4(1) unfolding start_def Let_def s1_def
    by (simp add: rain0_def RainGenerator_new_def)
  moreover have "running (startDrops (setPanRange (dropPanRange (params (setDropRate (dropRate (params s4)) s4)))
                 (setDropRate (dropRate (params s4)) s4)))"
    using s4(2) by (simp add: startDrops_def setPanRange_def setDropRate_def Let_def split: option.splits)
  moreover have "noiseNode (startDrops (setPanRange (dropPanRange (params (setDropRate (dropRate (params s4)) s4)))
                 (setDropRate (dropRate (params s4)) s4))) \<noteq> None"
    using s4(2,3) by (simp add: startDrops_def setPanRange_def setDropRate_def Let_def split: option.splits)
  ultimately show ?thesis
    by blast
qed

theorem C9_started_generator_witness:
  "\<exists>s1 s2. start rain0 = Inr s1 \<and> running s1 \<and> noiseNode s1 \<noteq> None
     \<and> stop s1 = Inr s2 \<and> stop s2 = Inr s2 \<and> silent s2"
proof -
  from start_rain0 obtain s1 where s1: "start rain0 = Inr s1" "running s1" "noiseNode s1 \<noteq> None"
    by blast
  have "reachable rain0"
    unfolding rain0_def by (rule r_new)
  then have r: "reachable s1"
    using s1(1) by (rule r_start)
  have r2: "reachable (rain \<lparr>ctl_running = True, rain = s1, thunderTimeout = Some 7\<rparr>)"
    using r by simp
  from C9_stop_twice_is_stop_once [OF r r2, of host0 defaultRainParams]
  obtain s2 where "stop s1 = Inr s2" "stop s2 = Inr s2" "silent s2"
    by blast
  with s1 show ?thesis
    by blast
qed

text \<open>
  C9 as stated fails in its last part: \<open>stop()\<close> before \<open>start()\<close> changes the state of
  a freshly constructed generator (the output gain goes from 1 to 0).
\<close>

theorem C9_stop_before_start_zeroes_gains:
  "map_sum id output_gain (stop rain0) = Inr 0 \<and> output_gain rain0 = 1
   \<and> stop rain0 \<noteq> Inr rain0"
proof -
  have a: "stop rain0 = Inr (rain0\<lparr>output_gain := 0, noiseGainNode_gain := 0,
              dropGainNode_gain := 0, dryDropGainNode_gain := 0, dryGain_gain := 0,
              wetGain_gain := 0\<rparr>)"
    unfolding rain0_def by (rule stop_new)
  have b: "output_gain rain0 = 1"
    by (simp add: rain0_def RainGenerator_new_def)
  have "output_gain (rain0\<lparr>output_gain := 0, noiseGainNode_gain := 0,
              dropGainNode_gain := 0, dryDropGainNode_gain := 0, dryGain_gain := 0,
              wetGain_gain := 0\<rparr>) \<noteq> output_gain rain0"
    unfolding b by simp
  then have "rain0\<lparr>output_gain := 0, noiseGainNode_gain := 0,
              dropGainNode_gain := 0, dryDropGainNode_gain := 0, dryGain_gain := 0,
              wetGain_gain := 0\<rparr> \<noteq> rain0"
    by metis
  with a b show ?thesis
    by simp
qed

lemma start_v2_effect:
  assumes "0 < sampleRate (ctx_v2 s)"
  shows "\<exists>s' nd. start_v2 s = Inr s' \<and> noiseSource s' = Some nd \<and> node_id nd = fresh (ctx_v2 s)
     \<and> loop nd
     \<and> started (ctx_v2 s') = insert (fresh (ctx_v2 s)) (started (ctx_v2 s))
     \<and> stopped (ctx_v2 s') = stopped (ctx_v2 s)
     \<and> fresh (ctx_v2 s') = Suc (fresh (ctx_v2 s))
     \<and> sampleRate (ctx_v2 s') = sampleRate (ctx_v2 s)"
proof -
  have "createBuffer (real (sampleRate (ctx_v2 s) * 2)) = Inr (replicate (sampleRate (ctx_v2 s) * 2) 0)"
    using assms by (rule_tac createBuffer_nat) simp
  then show ?thesis
    by (simp add: start_v2_def createNoiseBuffer_def Let_def startSource_def)
qed

lemma stop_v2_effect:
  assumes "noiseSource s = Some nd" and "node_id nd \<in> started (ctx_v2 s)"
  shows "\<exists>s'. stop_v2 s = Inr s' \<and> noiseSource s' = None
     \<and> started (ctx_v2 s') = started (ctx_v2 s)
     \<and> stopped (ctx_v2 s') = insert (node_id nd) (stopped (ctx_v2 s))"
  using assms by (simp add: stop_v2_def stopSource_def)

text \<open>
  C8. A second \<open>start()\<close> on a running generator creates no further persistent node,
  and \<open>stop()\<close> severs them. V1 \<open>start()\<close> returns at once when \<open>running\<close> is set
  (\<open>start_running\<close>). V2 \<open>start()\<close> has no such guard: started twice, the generator
  has two looping noise sources playing and holds only the second; \<open>stop()\<close> then stops
  that one, and the first keeps playing with no reference left to stop it.
\<close>

theorem C8_v2_second_start_leaks_noise_source:
  "\<exists>s1 s2 s3. start_v2 rainV2_0 = Inr s1 \<and> start_v2 s1 = Inr s2 \<and> stop_v2 s2 = Inr s3
     \<and> playing (ctx_v2 s1) = {1} \<and> playing (ctx_v2 s2) = {1, 2}
     \<and> noiseSource s3 = None \<and> playing (ctx_v2 s3) = {1}"
proof -
  have h0: "sampleRate (ctx_v2 rainV2_0) = 44100" "fresh (ctx_v2 rainV2_0) = 1"
    "started (ctx_v2 rainV2_0) = {}" "stopped (ctx_v2 rainV2_0) = {}"
    by (simp_all add: rainV2_0_def RainGeneratorV2_new_def host0_def)
  have "0 < sampleRate (ctx_v2 rainV2_0)"
    by (simp add: h0)
  from start_v2_effect [OF this] obtain s1 where
    s1: "start_v2 rainV2_0 = Inr s1" "started (ctx_v2 s1) = {1}" "stopped (ctx_v2 s1) = {}"
      "fresh (ctx_v2 s1) = 2" "sampleRate (ctx_v2 s1) = 44100"
    unfolding h0 by auto
  have "0 < sampleRate (ctx_v2 s1)"
    by (simp add: s1)
  from start_v2_effect [OF this] obtain s2 n2 where
    s2: "start_v2 s1 = Inr s2" "noiseSource s2 = Some n2" "node_id n2 = 2"
      "started (ctx_v2 s2) = {1, 2}" "stopped (ctx_v2 s2) = {}"
    unfolding s1 by auto
  have "node_id n2 \<in> started (ctx_v2 s2)"
    by (simp add: s2)
  from stop_v2_effect [OF s2(2) this] obtain s3 where
    s3: "stop_v2 s2 = Inr s3" "noiseSource s3 = None" "started (ctx_v2 s3) = {1, 2}"
      "stopped (ctx_v2 s3) = {2}"
    unfolding s2 by auto
  have "playing (ctx_v2 s1) = {1}" "playing (ctx_v2 s2) = {1, 2}" "playing (ctx_v2 s3) = {1}"
    by (auto simp add: playing_def s1 s2 s3)
  with s1(1) s2(1) s3(1,2) show ?thesis
    by blast
qed

section \<open>The WAV file\<close>

lemma interleaved_stereo2: "interleaved_of stereo2 = [1, - 1, - 1/2, 0]"
  by (simp add: interleaved_of_def stereo2_def numberOfChannels_def copyFromChannel_def
      upt_rec numeral_2_eq_2 numeral_3_eq_3)

lemma interleave_stereo2: "interleave stereo2 = [1, - 1, 1/2, - 1/2]"
  by (simp add: interleave_def stereo2_def numberOfChannels_def upt_rec numeral_2_eq_2)

lemma enc1: "sampleToInt16 1 = 0x7FFF" and enc2: "sampleToInt16 (- 1) = 0x8000"
  and enc3: "sampleToInt16 (- 1/2) = 0xC000" and enc4: "sampleToInt16 0 = 0"
  and enc5: "sampleToInt16 (1/2) = 0x3FFF"
  by (simp_all add: sampleToInt16_def toInt16_def Let_def)


lemma writeString_view_length [simp]: "length (view (writeString s w)) = length (view w)"
  by (induction s arbitrary: w) simp_all

lemma writeString_offset [simp]: "offset (writeString s w) = offset w + length s"
  by (induction s arbitrary: w) simp_all

lemma writeUint32_view_length [simp]: "length (view (writeUint32 v w)) = length (view w)"
  by (simp add: writeUint32_def Let_def)

lemma writeUint32_offset [simp]: "offset (writeUint32 v w) = offset w + 4"
  by (simp add: writeUint32_def Let_def)

lemma writeUint16_view_length [simp]: "length (view (writeUint16 v w)) = length (view w)"
  by (simp add: writeUint16_def Let_def)

lemma writeUint16_offset [simp]: "offset (writeUint16 v w) = offset w + 2"
  by (simp add: writeUint16_def Let_def)

text \<open>A write leaves every byte outside its own range alone.\<close>

lemma writeString_nth:
  "i < offset w \<or> offset w + length s \<le> i \<Longrightarrow> view (writeString s w) ! i = view w ! i"
  by (induction s arbitrary: w) auto

lemma writeUint32_nth:
  "i < offset w \<or> offset w + 4 \<le> i \<Longrightarrow> view (writeUint32 v w) ! i = view w ! i"
  by (auto simp add: writeUint32_def Let_def)

lemma writeUint16_nth:
  "i < offset w \<or> offset w + 2 \<le> i \<Longrightarrow> view (writeUint16 v w) ! i = view w ! i"
  by (auto simp add: writeUint16_def Let_def)

lemma writeUint32_field:
  "offset w + 4 \<le> length (view w) \<Longrightarrow>
   take 4 (drop (offset w) (view (writeUint32 v w)))
     = [ucast (word_of_nat v :: 32 word), ucast (drop_bit 8 (word_of_nat v :: 32 word)),
        ucast (drop_bit 16 (word_of_nat v :: 32 word)), ucast (drop_bit 24 (word_of_nat v :: 32 word))]"
  by (rule nth_equalityI) (auto simp add: writeUint32_def Let_def nth_list_update less_Suc_eq numeral_eq_Suc)

lemma le32_bytes:
  "le32 [ucast (x :: 32 word), ucast (drop_bit 8 x), ucast (drop_bit 16 x), ucast (drop_bit 24 x)] = unat x"
proof -
  define n where "n = unat x"
  define n1 where "n1 = n div 256"
  define n2 where "n2 = n1 div 256"
  define n3 where "n3 = n2 div 256"
  have "n < 2 ^ 32"
    unfolding n_def using unsigned_less [of x, where 'a = nat] by simp
  then have "n3 < 256"
    unfolding n3_def n2_def n1_def by simp
  then have m3: "n3 mod 256 = n3"
    by simp
  have d: "n div 65536 = n2" "n div 16777216 = n3"
    unfolding n3_def n2_def n1_def by (simp_all add: div_mult2_eq [symmetric])
  have e: "n = n mod 256 + 256 * n1" "n1 = n1 mod 256 + 256 * n2" "n2 = n2 mod 256 + 256 * n3"
    unfolding n3_def n2_def n1_def by simp_all
  have "le32 [ucast x, ucast (drop_bit 8 x), ucast (drop_bit 16 x), ucast (drop_bit 24 x)]
      = n mod 256 + 256 * (n1 mod 256 + 256 * (n2 mod 256 + 256 * (n3 mod 256)))"
    by (simp add: le32_def unsigned_ucast_eq unat_drop_bit_eq drop_bit_eq_div take_bit_eq_mod
        unat_div_distrib n_def [symmetric] d n1_def [symmetric])
  also have "\<dots> = n"
  proof -
    define r0 r1 r2 where "r0 = n mod 256" and "r1 = n1 mod 256" and "r2 = n2 mod 256"
    have "n = r0 + 256 * n1" "n1 = r1 + 256 * n2" "n2 = r2 + 256 * n3"
      using e by (simp_all add: r0_def r1_def r2_def)
    then have "r0 + 256 * (r1 + 256 * (r2 + 256 * n3)) = n"
      by simp
    then show ?thesis
      by (simp add: m3 r0_def r1_def r2_def)
  qed
  finally show ?thesis
    by (simp add: n_def)
qed


lemma writeString_take: "p \<le> offset w \<Longrightarrow> take p (view (writeString s w)) = take p (view w)"
  by (induction s arbitrary: w) simp_all

lemma writeUint32_take: "p \<le> offset w \<Longrightarrow> take p (view (writeUint32 v w)) = take p (view w)"
  by (simp add: writeUint32_def Let_def)

lemma writeUint16_take: "p \<le> offset w \<Longrightarrow> take p (view (writeUint16 v w)) = take p (view w)"
  by (simp add: writeUint16_def Let_def)

lemma copyFromChannel_length [simp]: "length (copyFromChannel audioBuffer first ch arr) = length arr"
  by (simp add: copyFromChannel_def Let_def)

lemma fold_copy_length:
  "length (fold (\<lambda>ch arr. copyFromChannel audioBuffer ch ch arr) chs arr) = length arr"
  by (induction chs arbitrary: arr) simp_all

lemma interleaved_of_length: "length (interleaved_of audioBuffer) = length_b audioBuffer * numberOfChannels audioBuffer"
  by (simp add: interleaved_of_def fold_copy_length)

lemma int16_bytes_length: "length (concat (map int16_bytes xs)) = 2 * length xs"
  by (induction xs) (simp_all add: int16_bytes_def)

lemma bufferToWavBlob_header:
  "bufferToWavBlob audioBuffer =
     take (offset (header audioBuffer)) (view (header audioBuffer))
       @ concat (map int16_bytes (map sampleToInt16 (interleaved_of audioBuffer)))
       @ drop (offset (header audioBuffer) + length (concat (map int16_bytes (map sampleToInt16 (interleaved_of audioBuffer)))))
           (view (header audioBuffer))"
  by (simp add: bufferToWavBlob_def Let_def)

lemma header_offset: "offset (header audioBuffer) = 44"
  by (simp add: header_def Let_def)

lemma header_view_length:
  "length (view (header audioBuffer)) = length_b audioBuffer * numberOfChannels audioBuffer * 2 + 44"
  by (simp add: header_def Let_def)

lemma header_riff_field:
  "take 4 (drop 4 (view (header audioBuffer)))
     = [ucast (word_of_nat (length_b audioBuffer * numberOfChannels audioBuffer * 2 + 36) :: 32 word),
        ucast (drop_bit 8 (word_of_nat (length_b audioBuffer * numberOfChannels audioBuffer * 2 + 36) :: 32 word)),
        ucast (drop_bit 16 (word_of_nat (length_b audioBuffer * numberOfChannels audioBuffer * 2 + 36) :: 32 word)),
        ucast (drop_bit 24 (word_of_nat (length_b audioBuffer * numberOfChannels audioBuffer * 2 + 36) :: 32 word))]"
proof -
  define len where "len = length_b audioBuffer * numberOfChannels audioBuffer * 2 + 44"
  define w1 where "w1 = writeString ''RIFF'' \<lparr>view = replicate len 0, offset = 0\<rparr>"
  have o1: "offset w1 = 4" and l1: "length (view w1) = len"
    by (simp_all add: w1_def)
  have e: "len - 8 = length_b audioBuffer * numberOfChannels audioBuffer * 2 + 36"
    by (simp add: len_def)
  have "take 8 (view (header audioBuffer)) = take 8 (view (writeUint32 (len - 8) w1))"
    unfolding header_def Let_def len_def [symmetric] w1_def [symmetric]
    by (simp add: writeString_take writeUint32_take writeUint16_take o1)
  then have "take 4 (drop 4 (take 8 (view (header audioBuffer))))
      = take 4 (drop 4 (take 8 (view (writeUint32 (len - 8) w1))))"
    by simp
  then have "take 4 (drop 4 (view (header audioBuffer))) = take 4 (drop (offset w1) (view (writeUint32 (len - 8) w1)))"
    by (simp add: drop_take o1)
  also have "\<dots> = [ucast (word_of_nat (len - 8) :: 32 word), ucast (drop_bit 8 (word_of_nat (len - 8) :: 32 word)),
        ucast (drop_bit 16 (word_of_nat (len - 8) :: 32 word)), ucast (drop_bit 24 (word_of_nat (len - 8) :: 32 word))]"
    by (rule writeUint32_field) (simp add: o1 l1 len_def)
  finally show ?thesis
    unfolding e .
qed

lemma header_data_field:
  "take 4 (drop 40 (view (header audioBuffer)))
     = [ucast (word_of_nat (length_b audioBuffer * numberOfChannels audioBuffer * 2) :: 32 word),
        ucast (drop_bit 8 (word_of_nat (length_b audioBuffer * numberOfChannels audioBuffer * 2) :: 32 word)),
        ucast (drop_bit 16 (word_of_nat (length_b audioBuffer * numberOfChannels audioBuffer * 2) :: 32 word)),
        ucast (drop_bit 24 (word_of_nat (length_b audioBuffer * numberOfChannels audioBuffer * 2) :: 32 word))]"
proof -
  define len where "len = length_b audioBuffer * numberOfChannels audioBuffer * 2 + 44"
  define w12 where "w12 =
     writeString ''data'' (writeUint16 16 (writeUint16 (numberOfChannels audioBuffer * 2)
       (writeUint32 (sampleRate_b audioBuffer * numberOfChannels audioBuffer * 2)
         (writeUint32 (sampleRate_b audioBuffer) (writeUint16 (numberOfChannels audioBuffer)
           (writeUint16 1 (writeUint32 16 (writeString ''fmt '' (writeString ''WAVE''
             (writeUint32 (len - 8) (writeString ''RIFF'' \<lparr>view = replicate len 0, offset = 0\<rparr>)))))))))))"
  have o: "offset w12 = 40" and l: "length (view w12) = len"
    by (simp_all add: w12_def)
  have e: "len - offset w12 - 4 = length_b audioBuffer * numberOfChannels audioBuffer * 2"
    by (simp add: len_def o)
  have h: "header audioBuffer = writeUint32 (len - offset w12 - 4) w12"
    unfolding header_def Let_def len_def [symmetric] w12_def [symmetric] ..
  have "take 4 (drop 40 (view (header audioBuffer))) = take 4 (drop (offset w12) (view (writeUint32 (len - offset w12 - 4) w12)))"
    by (simp add: h o)
  also have "\<dots> = [ucast (word_of_nat (len - offset w12 - 4) :: 32 word),
        ucast (drop_bit 8 (word_of_nat (len - offset w12 - 4) :: 32 word)),
        ucast (drop_bit 16 (word_of_nat (len - offset w12 - 4) :: 32 word)),
        ucast (drop_bit 24 (word_of_nat (len - offset w12 - 4) :: 32 word))]"
    by (rule writeUint32_field) (simp add: o l len_def)
  finally show ?thesis
    unfolding e .
qed

lemma wav_layout:
  "length (bufferToWavBlob audioBuffer) = length_b audioBuffer * numberOfChannels audioBuffer * 2 + 44
   \<and> take 44 (bufferToWavBlob audioBuffer) = take 44 (view (header audioBuffer))
   \<and> data_chunk (bufferToWavBlob audioBuffer)
       = concat (map int16_bytes (map sampleToInt16 (interleaved_of audioBuffer)))"
proof -
  define bytes where "bytes = concat (map int16_bytes (map sampleToInt16 (interleaved_of audioBuffer)))"
  define hd44 where "hd44 = take 44 (view (header audioBuffer))"
  have lb: "length bytes = length_b audioBuffer * numberOfChannels audioBuffer * 2"
    unfolding bytes_def int16_bytes_length by (simp add: interleaved_of_length)
  have t: "length hd44 = 44"
    by (simp add: hd44_def header_view_length)
  have "bufferToWavBlob audioBuffer = take 44 (view (header audioBuffer)) @ bytes
       @ drop (44 + length bytes) (view (header audioBuffer))"
    unfolding bufferToWavBlob_header header_offset bytes_def ..
  also have "drop (44 + length bytes) (view (header audioBuffer)) = []"
    by (simp add: lb header_view_length)
  finally have f: "bufferToWavBlob audioBuffer = hd44 @ bytes"
    by (simp add: hd44_def)
  show ?thesis
    unfolding f data_chunk_def bytes_def [symmetric] hd44_def [symmetric] using t lb by simp
qed

lemma wav_size_fields:
  assumes "length_b audioBuffer * numberOfChannels audioBuffer * 2 + 36 < 2 ^ 32"
  shows "riff_size_field (bufferToWavBlob audioBuffer) = length (bufferToWavBlob audioBuffer) - 8
   \<and> data_size_field (bufferToWavBlob audioBuffer) = length_b audioBuffer * numberOfChannels audioBuffer * 2"
proof -
  define n where "n = length_b audioBuffer * numberOfChannels audioBuffer * 2"
  have t: "take 44 (bufferToWavBlob audioBuffer) = take 44 (view (header audioBuffer))"
    and l: "length (bufferToWavBlob audioBuffer) = n + 44"
    using wav_layout [of audioBuffer] by (simp_all add: n_def)
  have "take 4 (drop 4 (take 44 (bufferToWavBlob audioBuffer))) = take 4 (drop 4 (take 44 (view (header audioBuffer))))"
    by (simp only: t)
  then have a: "take 4 (drop 4 (bufferToWavBlob audioBuffer)) = take 4 (drop 4 (view (header audioBuffer)))"
    by (simp add: drop_take)
  have "take 4 (drop 40 (take 44 (bufferToWavBlob audioBuffer))) = take 4 (drop 40 (take 44 (view (header audioBuffer))))"
    by (simp only: t)
  then have b: "take 4 (drop 40 (bufferToWavBlob audioBuffer)) = take 4 (drop 40 (view (header audioBuffer)))"
    by (simp add: drop_take)
  have small: "n + 36 < 2 ^ 32" "n < 2 ^ 32"
    using assms by (simp_all add: n_def)
  have u1: "unat (word_of_nat (n + 36) :: 32 word) = n + 36"
    unfolding unat_of_nat using small(1) by simp
  have u2: "unat (word_of_nat n :: 32 word) = n"
    unfolding unat_of_nat using small(2) by simp
  have "riff_size_field (bufferToWavBlob audioBuffer) = n + 36"
    unfolding riff_size_field_def a header_riff_field n_def [symmetric] le32_bytes u1 ..
  moreover have "data_size_field (bufferToWavBlob audioBuffer) = n"
    unfolding data_size_field_def b header_data_field n_def [symmetric] le32_bytes u2 ..
  ultimately show ?thesis
    by (simp add: l n_def)
qed


lemma copyFromChannel_zero:
  assumes "\<forall>x \<in> set arr. x = 0" and "\<forall>x \<in> set (channelData audioBuffer ! ch). x = 0"
  shows "\<forall>x \<in> set (copyFromChannel audioBuffer first ch arr). x = 0"
proof -
  have "set (copyFromChannel audioBuffer first ch arr) \<subseteq> set arr \<union> set (channelData audioBuffer ! ch)"
    unfolding copyFromChannel_def Let_def
    using set_take_subset [of first arr]
      set_take_subset [of "min (length (channelData audioBuffer ! ch)) (length arr - first)" "channelData audioBuffer ! ch"]
      set_drop_subset [of "first + min (length (channelData audioBuffer ! ch)) (length arr - first)" arr]
    by auto
  with assms show ?thesis
    by blast
qed

lemma fold_copy_zero:
  assumes "\<forall>c \<in> set (channelData audioBuffer). \<forall>x \<in> set c. x = 0"
  shows "\<forall>ch \<in> set chs. ch < numberOfChannels audioBuffer \<Longrightarrow> \<forall>x \<in> set arr. x = 0 \<Longrightarrow>
    \<forall>x \<in> set (fold (\<lambda>ch arr. copyFromChannel audioBuffer ch ch arr) chs arr). x = 0"
proof (induction chs arbitrary: arr)
  case Nil
  then show ?case
    by simp
next
  case (Cons ch chs)
  have "ch < length (channelData audioBuffer)"
    using Cons.prems(1) by (simp add: numberOfChannels_def)
  then have "channelData audioBuffer ! ch \<in> set (channelData audioBuffer)"
    by simp
  with assms have "\<forall>x \<in> set (channelData audioBuffer ! ch). x = 0"
    by blast
  with Cons.prems(2) have "\<forall>x \<in> set (copyFromChannel audioBuffer ch ch arr). x = 0"
    by (rule copyFromChannel_zero)
  moreover have "\<forall>c \<in> set chs. c < numberOfChannels audioBuffer"
    using Cons.prems(1) by simp
  ultimately show ?case
    using Cons.IH by simp
qed

lemma zero_samples_bytes:
  "\<forall>x \<in> set xs. x = 0 \<Longrightarrow>
   concat (map int16_bytes (map sampleToInt16 xs)) = replicate (length xs * 2) 0"
  by (induction xs) (simp_all add: int16_bytes_def sampleToInt16_def toInt16_def Let_def)

lemma wav_silence:
  assumes "\<forall>c \<in> set (channelData audioBuffer). \<forall>x \<in> set c. x = 0"
  shows "data_chunk (bufferToWavBlob audioBuffer)
     = replicate (length_b audioBuffer * numberOfChannels audioBuffer * 2) 0"
proof -
  have "\<forall>x \<in> set (interleaved_of audioBuffer). x = 0"
    unfolding interleaved_of_def by (rule fold_copy_zero [OF assms]) simp_all
  then have "concat (map int16_bytes (map sampleToInt16 (interleaved_of audioBuffer)))
      = replicate (length (interleaved_of audioBuffer) * 2) 0"
    by (rule zero_samples_bytes)
  then show ?thesis
    using wav_layout [of audioBuffer] by (simp add: interleaved_of_length)
qed

lemma wav_mono:
  assumes "channelData audioBuffer = [c]" and "length c = length_b audioBuffer"
  shows "interleaved_of audioBuffer = c \<and> interleave audioBuffer = c"
proof -
  have "interleaved_of audioBuffer = c"
    using assms by (simp add: interleaved_of_def numberOfChannels_def copyFromChannel_def)
  moreover have "interleave audioBuffer = map (\<lambda>i. c ! i) [0..<length c]"
    using assms by (simp add: interleave_def numberOfChannels_def concat_map_singleton)
  ultimately show ?thesis
    by (simp add: map_nth)
qed

text \<open>
  C3. The size fields are right (\<open>wav_size_fields\<close>), the data chunk holds the 16-bit
  little-endian encodings of the array \<open>interleaved\<close> (\<open>wav_layout\<close>), silence encodes to
  zero bytes (\<open>wav_silence\<close>), 1 and -1 encode to \<open>0x7FFF\<close> and \<open>0x8000\<close>, and a mono
  audioBuffer is written in order (\<open>wav_mono\<close>). But \<open>interleaved\<close> is not interleaved when
  there is more than one channel: channel \<open>ch\<close> is copied as one block starting at index
  \<open>ch\<close>, each block overwriting the one before. For the stereo audioBuffer left \<open>[1, 0.5]\<close>,
  right \<open>[-1, -0.5]\<close> the data chunk holds 1, -1, -0.5, 0, where the interleaved order
  is 1, -1, 0.5, -0.5.
\<close>

theorem C3_stereo_data_chunk_is_not_interleaved:
  "data_chunk (bufferToWavBlob stereo2) = [0xFF, 0x7F, 0x00, 0x80, 0x00, 0xC0, 0x00, 0x00]
   \<and> concat (map int16_bytes (map sampleToInt16 (interleave stereo2)))
       = [0xFF, 0x7F, 0x00, 0x80, 0xFF, 0x3F, 0x00, 0xC0]
   \<and> riff_size_field (bufferToWavBlob stereo2) = 44
   \<and> data_size_field (bufferToWavBlob stereo2) = 8"
proof -
  have n: "length_b stereo2 = 2" "numberOfChannels stereo2 = 2"
    by (simp_all add: stereo2_def numberOfChannels_def)
  have "length_b stereo2 * numberOfChannels stereo2 * 2 + 36 < 2 ^ 32"
    by (simp add: n)
  from wav_size_fields [OF this] wav_layout [of stereo2]
  have f: "riff_size_field (bufferToWavBlob stereo2) = 44"
    "data_size_field (bufferToWavBlob stereo2) = 8"
    by (simp_all add: n)
  have b: "int16_bytes 0x7FFF = [0xFF, 0x7F]" "int16_bytes 0x8000 = [0x00, 0x80]"
    "int16_bytes 0xC000 = [0x00, 0xC0]" "int16_bytes 0 = [0x00, 0x00]"
    "int16_bytes 0x3FFF = [0xFF, 0x3F]"
    by (simp_all add: int16_bytes_def)
  have "data_chunk (bufferToWavBlob stereo2) = [0xFF, 0x7F, 0x00, 0x80, 0x00, 0xC0, 0x00, 0x00]"
    using wav_layout [of stereo2] enc3
    by (simp add: interleaved_stereo2 enc1 enc2 enc4 b)
  moreover have "concat (map int16_bytes (map sampleToInt16 (interleave stereo2)))
       = [0xFF, 0x7F, 0x00, 0x80, 0xFF, 0x3F, 0x00, 0xC0]"
    using enc3 by (simp add: interleave_stereo2 enc1 enc2 enc5 b)
  ultimately show ?thesis
    using f by simp
qed

section \<open>Parameter updates\<close>




lemma inherited_assign [simp]: "inherited (assign k v p) = inherited p"
  by (simp add: assign_def)







end
